theory Spec2Isabelle
  imports Complex_Main "HOL-Library.Word" "HOL-Library.Sublist"
begin

section \<open>Python values shared by app.py and searchAPP.py\<close>

text \<open>
  The exceptions the two scripts can meet. \<open>ValueError\<close> carries the message of the
  \<^verbatim>\<open>raise ValueError(...)\<close> statements; the others come from the libraries
  (\<open>Cv2Error\<close> is \<^verbatim>\<open>cv2.error\<close>, \<open>HttpError\<close> a failure of the Drive client).
\<close>

datatype exn = ValueError string | Cv2Error | OSError | UnpicklingError | HttpError

text \<open>
  A feature representation is a two-dimensional \<^verbatim>\<open>uint8\<close> array, given as its list of
  rows; a decoded colour image has three channels per pixel. A Python \<^verbatim>\<open>dict\<close>
  keeps its keys in insertion order, and \<^verbatim>\<open>.items()\<close> iterates in that order, so a
  dict is an association list.
\<close>

type_synonym gray = "8 word list list"
type_synonym bgr = "(8 word \<times> 8 word \<times> 8 word) list list"
type_synonym 'v pydict = "(string \<times> 'v) list"

text \<open>
  A query need not be a \<^verbatim>\<open>uint8\<close> array: \<^verbatim>\<open>np.array\<close> of a PIL image of mode 1, I;16, I
  or F is a two-dimensional array of booleans, 16-bit or 32-bit integers or floats. Such
  an array is given by its dtype and its rows of numbers.
\<close>

datatype dtype = Bool | Uint16 | Int32 | Float32

datatype array2d = U8 gray | Wide dtype "real list list"

text \<open>\<^verbatim>\<open>d[k] = v\<close>: an existing key keeps its position, a new key goes last.\<close>

fun dict_set :: "'v pydict \<Rightarrow> string \<Rightarrow> 'v \<Rightarrow> 'v pydict" where
  "dict_set [] k v = [(k, v)]"
| "dict_set ((k', v') # d) k v =
     (if k' = k then (k, v) # d else (k', v') # dict_set d k v)"

text \<open>\<^verbatim>\<open>k in d\<close>\<close>

definition dict_contains :: "'v pydict \<Rightarrow> string \<Rightarrow> bool" where
  "dict_contains d k = (k \<in> set (map fst d))"

text \<open>
  What a file that \<^verbatim>\<open>pickle.dump\<close> wrote holds for \<^verbatim>\<open>open\<close> and
  \<^verbatim>\<open>pickle.load\<close>: the file cannot be opened, its bytes are no pickle, or it
  unpickles to the object that was dumped.
\<close>

datatype 'a pickled = Unreadable | Corrupt | Pickled 'a

text \<open>What the scripts print or show: one constructor per message of the source.\<close>

datatype log_msg =
    ErrorProcessing string exn
  | ErrorComparing string exn
  | StInfoNoImages
  | StSuccessAllIndexed
  | StSuccessIndexed nat
  | StWarning string exn

text \<open>
  The spec's \<^verbatim>\<open>BuildReport {added_count, total_count}\<close>. Neither script defines such a
  value; the type is here so that what \<^verbatim>\<open>build_index\<close> returns (Python's
  \<^verbatim>\<open>None\<close>, the \<open>None\<close> of \<open>build_report option\<close>) can be compared with it.
\<close>

record build_report =
  added_count :: nat
  total_count :: nat

subsection \<open>Library functions\<close>

text \<open>
  The libraries the scripts call are parameters: \<open>luma\<close> is the grey value
  \<^verbatim>\<open>cv2.cvtColor(., COLOR_BGR2GRAY)\<close> gives a (B, G, R) pixel, \<open>interp src x y\<close> the
  value \<^verbatim>\<open>cv2.resize\<close> interpolates for column \<open>x\<close>, row \<open>y\<close> of its output,
  \<open>ssim\<close> is \<^verbatim>\<open>skimage.metrics.structural_similarity\<close> of a query array and a stored
  representation (it raises on arrays it cannot compare; its float result is read as a
  real number), \<open>imdecode\<close> is \<^verbatim>\<open>cv2.imdecode\<close> on a non-empty buffer, \<open>os_path_join\<close> is
  \<^verbatim>\<open>os.path.join\<close>. For an array that is not \<^verbatim>\<open>uint8\<close>, \<open>resize_ok\<close> says whether
  \<^verbatim>\<open>cv2.resize\<close> accepts its dtype and \<open>interp_wide\<close> is the value it interpolates.
\<close>

record lib =
  luma :: "8 word \<times> 8 word \<times> 8 word \<Rightarrow> 8 word"
  interp :: "gray \<Rightarrow> nat \<Rightarrow> nat \<Rightarrow> 8 word"
  ssim :: "array2d \<Rightarrow> gray \<Rightarrow> exn + real"
  imdecode :: "8 word list \<Rightarrow> bgr option"
  os_path_join :: "string \<Rightarrow> string \<Rightarrow> string"
  resize_ok :: "dtype \<Rightarrow> bool"
  interp_wide :: "real list list \<Rightarrow> nat \<Rightarrow> nat \<Rightarrow> real"

text \<open>\<^verbatim>\<open>cv2.cvtColor(img, cv2.COLOR_BGR2GRAY)\<close>; OpenCV refuses an empty array.\<close>

definition cv2_cvtColor_BGR2GRAY :: "lib \<Rightarrow> bgr \<Rightarrow> exn + gray" where
  "cv2_cvtColor_BGR2GRAY L img =
     (if img = [] \<or> hd img = [] then Inl Cv2Error else Inr (map (map (luma L)) img))"

text \<open>\<^verbatim>\<open>cv2.cvtColor(img_array, cv2.COLOR_RGB2BGR)\<close>\<close>

definition cv2_cvtColor_RGB2BGR :: "bgr \<Rightarrow> exn + bgr" where
  "cv2_cvtColor_RGB2BGR img =
     (if img = [] \<or> hd img = [] then Inl Cv2Error
      else Inr (map (map (\<lambda>(r, g, b). (b, g, r))) img))"

text \<open>
  \<^verbatim>\<open>cv2.resize(src, dsize)\<close> with \<open>dsize = (width, height)\<close>: OpenCV refuses an empty
  source and otherwise returns an array of \<open>height\<close> rows and \<open>width\<close> columns, whatever
  the source's size was.
\<close>

definition cv2_resize :: "lib \<Rightarrow> gray \<Rightarrow> nat \<times> nat \<Rightarrow> exn + gray" where
  "cv2_resize L src dsize =
     (if src = [] \<or> hd src = [] then Inl Cv2Error
      else Inr (map (\<lambda>y. map (\<lambda>x. interp L src x y) [0..<fst dsize]) [0..<snd dsize]))"

text \<open>
  \<^verbatim>\<open>cv2.resize(src, dsize)\<close> on a two-dimensional array that is not \<^verbatim>\<open>uint8\<close>: refused
  when the array is empty or its dtype is one OpenCV does not resize; otherwise the
  output has the requested size and the dtype of the source.
\<close>

definition cv2_resize_wide ::
  "lib \<Rightarrow> dtype \<Rightarrow> real list list \<Rightarrow> nat \<times> nat \<Rightarrow> exn + real list list" where
  "cv2_resize_wide L dt src dsize =
     (if src = [] \<or> hd src = [] \<or> \<not> resize_ok L dt then Inl Cv2Error
      else Inr (map (\<lambda>y. map (\<lambda>x. interp_wide L src x y) [0..<fst dsize]) [0..<snd dsize]))"

text \<open>
  \<^verbatim>\<open>ssim(img1, img2)\<close>, lines 54-55 of app.py and 196-198 of searchAPP.py: the first
  argument is the query, the second a stored representation.
\<close>

definition compute_similarity :: "lib \<Rightarrow> array2d \<Rightarrow> gray \<Rightarrow> exn + real" where
  "compute_similarity L img1 img2 = ssim L img1 img2"

text \<open>
  \<^verbatim>\<open>results.sort(key=..., reverse=True)\<close>: CPython reverses the list, sorts it with its
  stable ascending sort and reverses it again.
\<close>

definition py_sort_reverse :: "('a \<Rightarrow> 'k::linorder) \<Rightarrow> 'a list \<Rightarrow> 'a list" where
  "py_sort_reverse key xs = rev (sort_key key (rev xs))"

text \<open>\<^verbatim>\<open>xs[:limit]\<close>: a negative limit counts from the end of the list.\<close>

definition py_slice_to :: "'a list \<Rightarrow> int \<Rightarrow> 'a list" where
  "py_slice_to xs limit =
     (if 0 \<le> limit then take (nat limit) xs else take (length xs - nat (- limit)) xs)"

text \<open>
  The scan of \<^verbatim>\<open>search\<close> (lines 63-70 of app.py, 214-221 of searchAPP.py, the same
  loop): every entry of the index in iteration order; a comparison that raises is
  printed and skipped.
\<close>

fun search_scan ::
  "lib \<Rightarrow> array2d \<Rightarrow> real \<Rightarrow> gray pydict \<Rightarrow> (string \<times> real) list \<times> log_msg list
     \<Rightarrow> (string \<times> real) list \<times> log_msg list" where
  "search_scan L query_img similarity_threshold [] acc = acc"
| "search_scan L query_img similarity_threshold ((k, processed_img) # rest) (results, out) =
     (case compute_similarity L query_img processed_img of
        Inr similarity \<Rightarrow>
          (if similarity \<ge> similarity_threshold
           then search_scan L query_img similarity_threshold rest (results @ [(k, similarity)], out)
           else search_scan L query_img similarity_threshold rest (results, out))
      | Inl e \<Rightarrow>
          search_scan L query_img similarity_threshold rest (results, out @ [ErrorComparing k e]))"

section \<open>app.py: ImageSearchEngine over a local directory\<close>

text \<open>
  The engine's attributes together with what it reads and writes: the names
  \<^verbatim>\<open>os.listdir(image_directory)\<close> returns (or the error it raises), what
  \<^verbatim>\<open>cv2.imread\<close> gives for a path, the file \<^verbatim>\<open>image_index.pkl\<close> (\<open>None\<close> when it does
  not exist), whether that file can be opened for writing, and the printed lines.
\<close>

record app_world =
  image_directory :: string
  image_features :: "gray pydict"
  is_indexed :: bool
  listdir :: "exn + string list"
  imread :: "string \<Rightarrow> bgr option"
  index_file :: "gray pydict pickled option"
  writable :: bool
  stdout :: "log_msg list"

text \<open>\<^verbatim>\<open>__init__\<close>, lines 14-17.\<close>

definition app_init :: "string \<Rightarrow> app_world \<Rightarrow> app_world" where
  "app_init dir w = w\<lparr>image_directory := dir, image_features := [], is_indexed := False\<rparr>"

text \<open>\<^verbatim>\<open>preprocess_image\<close>, lines 19-25.\<close>

definition preprocess_image :: "lib \<Rightarrow> (string \<Rightarrow> bgr option) \<Rightarrow> string \<Rightarrow> exn + gray" where
  "preprocess_image L rd image_path =
     (case rd image_path of
        None \<Rightarrow> Inl (ValueError (''Could not read image: '' @ image_path))
      | Some img \<Rightarrow>
          (case cv2_cvtColor_BGR2GRAY L img of
             Inl e \<Rightarrow> Inl e
           | Inr gray \<Rightarrow> cv2_resize L gray (256, 256)))"

text \<open>
  \<^verbatim>\<open>filename.lower().endswith(('.png', '.jpg', '.jpeg', '.bmp', '.tiff', '.gif'))\<close>,
  line 41. The suffixes are ASCII, so lowering the ASCII letters decides the test.
\<close>

definition lower_char :: "char \<Rightarrow> char" where
  "lower_char c =
     (let n = (of_char c :: nat) in if 65 \<le> n \<and> n \<le> 90 then char_of (n + 32) else c)"

definition lower :: "string \<Rightarrow> string" where
  "lower s = map lower_char s"

definition endswith :: "string \<Rightarrow> string \<Rightarrow> bool" where
  "endswith s suf = (length suf \<le> length s \<and> drop (length s - length suf) s = suf)"

definition image_suffixes :: "string list" where
  "image_suffixes = [''.png'', ''.jpg'', ''.jpeg'', ''.bmp'', ''.tiff'', ''.gif'']"

definition is_image_name :: "string \<Rightarrow> bool" where
  "is_image_name filename = list_ex (endswith (lower filename)) image_suffixes"

text \<open>The loop of \<^verbatim>\<open>build_index\<close>, lines 40-47.\<close>

fun index_loop :: "lib \<Rightarrow> string list \<Rightarrow> app_world \<Rightarrow> app_world" where
  "index_loop L [] w = w"
| "index_loop L (filename # rest) w =
     (if is_image_name filename then
        (let image_path = os_path_join L (image_directory w) filename in
         case preprocess_image L (imread w) image_path of
           Inr processed_img \<Rightarrow>
             index_loop L rest
               (w\<lparr>image_features := dict_set (image_features w) image_path processed_img\<rparr>)
         | Inl e \<Rightarrow>
             index_loop L rest (w\<lparr>stdout := stdout w @ [ErrorProcessing image_path e]\<rparr>))
      else index_loop L rest w)"

text \<open>
  The paths that loop visits, in its order: the listed names that pass the test of
  line 41, joined to the directory as in line 42.
\<close>

definition app_candidates :: "lib \<Rightarrow> app_world \<Rightarrow> string list \<Rightarrow> string list" where
  "app_candidates L w names =
     map (os_path_join L (image_directory w)) (filter is_image_name names)"

text \<open>
  The load of \<^verbatim>\<open>build_index\<close>, lines 34-35: \<^verbatim>\<open>open(index_file, 'rb')\<close> and
  \<^verbatim>\<open>pickle.load\<close>, with no handler around them.
\<close>

definition app_load_index :: "app_world \<Rightarrow> exn + app_world" where
  "app_load_index w =
     (case index_file w of
        None \<Rightarrow> Inl OSError
      | Some Unreadable \<Rightarrow> Inl OSError
      | Some Corrupt \<Rightarrow> Inl UnpicklingError
      | Some (Pickled d) \<Rightarrow> Inr (w\<lparr>image_features := d\<rparr>))"

text \<open>The save of \<^verbatim>\<open>build_index\<close>, lines 49-50.\<close>

definition app_save_index :: "app_world \<Rightarrow> exn + app_world" where
  "app_save_index w =
     (if writable w then Inr (w\<lparr>index_file := Some (Pickled (image_features w))\<rparr>)
      else Inl OSError)"

text \<open>
  \<^verbatim>\<open>build_index(force_rebuild)\<close>, lines 27-52. The result pairs what the call returns
  (\<open>Inr None\<close> for Python's \<^verbatim>\<open>None\<close>, \<open>Inl e\<close> for an exception that leaves the method)
  with the world it leaves behind.
\<close>

definition app_build_index ::
  "lib \<Rightarrow> bool \<Rightarrow> app_world \<Rightarrow> (exn + build_report option) \<times> app_world" where
  "app_build_index L force_rebuild w =
     (if is_indexed w \<and> \<not> force_rebuild then (Inr None, w)
      else if index_file w \<noteq> None \<and> \<not> force_rebuild then
        (case app_load_index w of
           Inl e \<Rightarrow> (Inl e, w)
         | Inr w1 \<Rightarrow> (Inr None, w1\<lparr>is_indexed := True\<rparr>))
      else
        (let w1 = w\<lparr>image_features := []\<rparr> in
         case listdir w1 of
           Inl e \<Rightarrow> (Inl e, w1)
         | Inr names \<Rightarrow>
             (let w2 = index_loop L names w1 in
              case app_save_index w2 of
                Inl e \<Rightarrow> (Inl e, w2)
              | Inr w3 \<Rightarrow> (Inr None, w3\<lparr>is_indexed := True\<rparr>))))"

text \<open>\<^verbatim>\<open>search\<close>, lines 57-73.\<close>

definition app_search ::
  "lib \<Rightarrow> string \<Rightarrow> real \<Rightarrow> int \<Rightarrow> app_world \<Rightarrow> (exn + (string \<times> real) list) \<times> app_world" where
  "app_search L query_image_path similarity_threshold limit w =
     (case (if \<not> is_indexed w then app_build_index L False w else (Inr None, w)) of
        (Inl e, w1) \<Rightarrow> (Inl e, w1)
      | (Inr _, w1) \<Rightarrow>
          (case preprocess_image L (imread w1) query_image_path of
             Inl e \<Rightarrow> (Inl e, w1)
           | Inr query_img \<Rightarrow>
               (let (results, out) =
                      search_scan L (U8 query_img) similarity_threshold (image_features w1)
                        ([], stdout w1)
                in (Inr (py_slice_to (py_sort_reverse snd results) limit),
                    w1\<lparr>stdout := out\<rparr>))))"

section \<open>searchAPP.py: GoogleDriveImageSearchEngine over a Drive folder\<close>

text \<open>An entry of the Drive listing: the fields \<^verbatim>\<open>id\<close>, \<^verbatim>\<open>name\<close>, \<^verbatim>\<open>mimeType\<close>.\<close>

record drive_file =
  file_id :: string
  file_name :: string
  mimeType :: string

text \<open>
  The dict pickled into \<^verbatim>\<open>gdrive_index_cache.pkl\<close>: each of its keys
  \<^verbatim>\<open>'features'\<close> and \<^verbatim>\<open>'metadata'\<close> may be missing (the load uses
  \<^verbatim>\<open>.get(key, {})\<close>).
\<close>

record gd_cached =
  cached_features :: "gray pydict option"
  cached_metadata :: "(string \<times> string) pydict option"

text \<open>
  The engine's attributes together with what it reads and writes: the Drive listing and
  download (or the error they raise), the cache file, whether it can be written, and the
  messages shown through \<^verbatim>\<open>st.info\<close>, \<^verbatim>\<open>st.success\<close> and \<^verbatim>\<open>st.warning\<close>.
\<close>

record gd_world =
  gd_image_features :: "gray pydict"
  gd_image_metadata :: "(string \<times> string) pydict"
  gd_is_indexed :: bool
  list_images_in_folder :: "exn + drive_file list"
  download_image :: "string \<Rightarrow> exn + 8 word list"
  cache_file :: "gd_cached pickled option"
  gd_writable :: bool
  st_log :: "log_msg list"

text \<open>\<^verbatim>\<open>__init__\<close>, lines 23-26.\<close>

definition gd_init :: "gd_world \<Rightarrow> gd_world" where
  "gd_init w = w\<lparr>gd_image_features := [], gd_image_metadata := [], gd_is_indexed := False\<rparr>"

text \<open>
  \<^verbatim>\<open>preprocess_image_from_buffer\<close>, lines 58-66. \<^verbatim>\<open>cv2.imdecode\<close> raises on an empty
  buffer and returns \<^verbatim>\<open>None\<close> for bytes it cannot decode.
\<close>

definition preprocess_image_from_buffer :: "lib \<Rightarrow> 8 word list \<Rightarrow> exn + gray" where
  "preprocess_image_from_buffer L image_buffer =
     (if image_buffer = [] then Inl Cv2Error
      else case imdecode L image_buffer of
        None \<Rightarrow> Inl (ValueError ''Could not decode image'')
      | Some img \<Rightarrow>
          (case cv2_cvtColor_BGR2GRAY L img of
             Inl e \<Rightarrow> Inl e
           | Inr gray \<Rightarrow> cv2_resize L gray (256, 256)))"

text \<open>
  What \<^verbatim>\<open>np.array(pil_image)\<close> can be: a two-dimensional \<^verbatim>\<open>uint8\<close> array (modes L and
  P), a two-dimensional array of another dtype (modes 1, I;16, I and F), or a
  three-dimensional \<^verbatim>\<open>uint8\<close> array with three (RGB), four (RGBA) or two (LA) channels.
\<close>

datatype pil_image =
    PilL gray
  | PilWide dtype "real list list"
  | PilRGB bgr
  | PilRGBA "(8 word \<times> 8 word \<times> 8 word \<times> 8 word) list list"
  | PilLA "(8 word \<times> 8 word) list list"

text \<open>
  \<^verbatim>\<open>preprocess_pil_image\<close>, lines 68-77. A two-dimensional array goes to
  \<^verbatim>\<open>cv2.resize\<close> as it is, whatever its dtype, and the result keeps that dtype. Only a
  three-channel array is converted from RGB to BGR; a four-channel one goes to
  \<^verbatim>\<open>COLOR_BGR2GRAY\<close> as it is, which reads its first three channels as B, G, R; a
  two-channel one is refused by OpenCV.
\<close>

definition preprocess_pil_image :: "lib \<Rightarrow> pil_image \<Rightarrow> exn + array2d" where
  "preprocess_pil_image L pil =
     (case pil of
        PilL img \<Rightarrow>
          (case cv2_resize L img (256, 256) of
             Inl e \<Rightarrow> Inl e
           | Inr resized \<Rightarrow> Inr (U8 resized))
      | PilWide dt img \<Rightarrow>
          (case cv2_resize_wide L dt img (256, 256) of
             Inl e \<Rightarrow> Inl e
           | Inr resized \<Rightarrow> Inr (Wide dt resized))
      | PilRGB img_array \<Rightarrow>
          (case cv2_cvtColor_RGB2BGR img_array of
             Inl e \<Rightarrow> Inl e
           | Inr img \<Rightarrow>
               (case cv2_cvtColor_BGR2GRAY L img of
                  Inl e \<Rightarrow> Inl e
                | Inr gray \<Rightarrow>
                    (case cv2_resize L gray (256, 256) of
                       Inl e \<Rightarrow> Inl e
                     | Inr resized \<Rightarrow> Inr (U8 resized))))
      | PilRGBA img \<Rightarrow>
          (case cv2_cvtColor_BGR2GRAY L (map (map (\<lambda>(c0, c1, c2, c3). (c0, c1, c2))) img) of
             Inl e \<Rightarrow> Inl e
           | Inr gray \<Rightarrow>
               (case cv2_resize L gray (256, 256) of
                  Inl e \<Rightarrow> Inl e
                | Inr resized \<Rightarrow> Inr (U8 resized)))
      | PilLA img \<Rightarrow> Inl Cv2Error)"

text \<open>
  Lines 114-116, inside the \<^verbatim>\<open>try\<close> of the loop: download the file, then preprocess
  the buffer; either step may raise.
\<close>

definition download_and_process :: "lib \<Rightarrow> gd_world \<Rightarrow> drive_file \<Rightarrow> exn + gray" where
  "download_and_process L w file =
     (case download_image w (file_id file) of
        Inl e \<Rightarrow> Inl e
      | Inr image_buffer \<Rightarrow> preprocess_image_from_buffer L image_buffer)"

text \<open>The loop of \<^verbatim>\<open>build_index\<close>, lines 110-128.\<close>

fun gd_index_loop :: "lib \<Rightarrow> drive_file list \<Rightarrow> gd_world \<Rightarrow> gd_world" where
  "gd_index_loop L [] w = w"
| "gd_index_loop L (file # rest) w =
     (case download_and_process L w file of
        Inl e \<Rightarrow> gd_index_loop L rest (w\<lparr>st_log := st_log w @ [StWarning (file_name file) e]\<rparr>)
      | Inr processed_img \<Rightarrow>
          gd_index_loop L rest
            (w\<lparr>gd_image_features :=
                 dict_set (gd_image_features w) (file_id file) processed_img,
               gd_image_metadata :=
                 dict_set (gd_image_metadata w) (file_id file)
                   (file_name file, mimeType file)\<rparr>))"

text \<open>The load at the head of \<^verbatim>\<open>build_index\<close>, lines 85-93.\<close>

definition gd_load_cache :: "gd_world \<Rightarrow> exn + gd_world" where
  "gd_load_cache w =
     (case cache_file w of
        Some Unreadable \<Rightarrow> Inl OSError
      | Some Corrupt \<Rightarrow> Inl UnpicklingError
      | Some (Pickled cached_data) \<Rightarrow>
          Inr (w\<lparr>gd_image_features :=
                    (case cached_features cached_data of Some d \<Rightarrow> d | None \<Rightarrow> []),
                  gd_image_metadata :=
                    (case cached_metadata cached_data of Some d \<Rightarrow> d | None \<Rightarrow> [])\<rparr>)
      | None \<Rightarrow> Inr (w\<lparr>gd_image_features := [], gd_image_metadata := []\<rparr>))"

text \<open>The save at the end of \<^verbatim>\<open>build_index\<close>, lines 130-135.\<close>

definition gd_save_cache :: "gd_world \<Rightarrow> exn + gd_world" where
  "gd_save_cache w =
     (if gd_writable w
      then Inr (w\<lparr>cache_file :=
                    Some (Pickled \<lparr>cached_features = Some (gd_image_features w),
                                   cached_metadata = Some (gd_image_metadata w)\<rparr>)\<rparr>)
      else Inl OSError)"

text \<open>\<^verbatim>\<open>build_index\<close>, lines 80-140.\<close>

definition gd_build_index :: "lib \<Rightarrow> gd_world \<Rightarrow> (exn + build_report option) \<times> gd_world" where
  "gd_build_index L w =
     (case gd_load_cache w of
        Inl e \<Rightarrow> (Inl e, w)
      | Inr w1 \<Rightarrow>
          (case list_images_in_folder w1 of
             Inl e \<Rightarrow> (Inl e, w1)
           | Inr files \<Rightarrow>
               if files = [] then (Inr None, w1\<lparr>st_log := st_log w1 @ [StInfoNoImages]\<rparr>)
               else
                 (let new_files =
                        filter (\<lambda>f. \<not> dict_contains (gd_image_metadata w1) (file_id f)) files
                  in if new_files = []
                     then (Inr None,
                           w1\<lparr>st_log := st_log w1 @ [StSuccessAllIndexed],
                              gd_is_indexed := True\<rparr>)
                     else
                       (let w2 = gd_index_loop L new_files w1 in
                        case gd_save_cache w2 of
                          Inl e \<Rightarrow> (Inl e, w2)
                        | Inr w3 \<Rightarrow>
                            (Inr None,
                             w3\<lparr>st_log := st_log w3 @ [StSuccessIndexed (length new_files)],
                                gd_is_indexed := True\<rparr>)))))"

text \<open>\<^verbatim>\<open>search\<close>'s argument: a PIL image, or an array that is already preprocessed.\<close>

datatype query_image = PIL pil_image | Ndarray array2d

text \<open>
  Lines 208-212 of \<^verbatim>\<open>search\<close>: a PIL image is preprocessed, anything else is taken
  as the query array.
\<close>

definition query_array :: "lib \<Rightarrow> query_image \<Rightarrow> exn + array2d" where
  "query_array L query_image =
     (case query_image of
        PIL pil \<Rightarrow> preprocess_pil_image L pil
      | Ndarray a \<Rightarrow> Inr a)"

text \<open>\<^verbatim>\<open>search\<close>, lines 200-224.\<close>

definition gd_search ::
  "lib \<Rightarrow> query_image \<Rightarrow> real \<Rightarrow> int \<Rightarrow> gd_world \<Rightarrow> (exn + (string \<times> real) list) \<times> gd_world" where
  "gd_search L query_image similarity_threshold limit w =
     (case (if \<not> gd_is_indexed w then gd_build_index L w else (Inr None, w)) of
        (Inl e, w1) \<Rightarrow> (Inl e, w1)
      | (Inr _, w1) \<Rightarrow>
          (case query_array L query_image of
             Inl e \<Rightarrow> (Inl e, w1)
           | Inr query_img \<Rightarrow>
               (let (results, out) =
                      search_scan L query_img similarity_threshold (gd_image_features w1)
                        ([], st_log w1)
                in (Inr (py_slice_to (py_sort_reverse snd results) limit),
                    w1\<lparr>st_log := out\<rparr>))))"

section \<open>Runs of the engines\<close>

text \<open>
  The canonical representation: 256 rows of 256 values, each an unsigned byte.
\<close>

definition canonical_grid :: "gray \<Rightarrow> bool" where
  "canonical_grid g =
     (length g = 256 \<and> (\<forall>row \<in> set g. length row = 256 \<and> (\<forall>v \<in> set row. unat v \<le> 255)))"

text \<open>
  Every representation the engine holds, in memory and in a snapshot that unpickles, is
  canonical.
\<close>

definition app_canonical :: "app_world \<Rightarrow> bool" where
  "app_canonical w =
     (list_all canonical_grid (map snd (image_features w))
      \<and> (case index_file w of
           Some (Pickled d) \<Rightarrow> list_all canonical_grid (map snd d)
         | _ \<Rightarrow> True))"

definition gd_canonical :: "gd_world \<Rightarrow> bool" where
  "gd_canonical w =
     (list_all canonical_grid (map snd (gd_image_features w))
      \<and> (case cache_file w of
           Some (Pickled c) \<Rightarrow>
             (case cached_features c of
                Some d \<Rightarrow> list_all canonical_grid (map snd d)
              | None \<Rightarrow> True)
         | _ \<Rightarrow> True))"

text \<open>
  The worlds a run of app.py can reach. It starts with a fresh engine and no
  \<^verbatim>\<open>image_index.pkl\<close>; the script calls \<^verbatim>\<open>build_index\<close> and \<^verbatim>\<open>search\<close>; a rerun of
  the script makes a fresh engine over the same directory; and between calls the
  directory's images may change in any way. Only \<^verbatim>\<open>build_index\<close> writes the snapshot.
\<close>

inductive app_reachable :: "lib \<Rightarrow> app_world \<Rightarrow> bool" for L :: lib where
  app_start: "index_file w = None \<Longrightarrow> app_reachable L (app_init dir w)"
| app_build: "app_reachable L w \<Longrightarrow> app_reachable L (snd (app_build_index L force_rebuild w))"
| app_query: "app_reachable L w \<Longrightarrow> app_reachable L (snd (app_search L p t n w))"
| app_rerun: "app_reachable L w \<Longrightarrow> app_reachable L (app_init (image_directory w) w)"
| app_files: "app_reachable L w \<Longrightarrow> app_reachable L (w\<lparr>listdir := l, imread := rd, writable := b\<rparr>)"

text \<open>The same for searchAPP.py and its \<^verbatim>\<open>gdrive_index_cache.pkl\<close>.\<close>

inductive gd_reachable :: "lib \<Rightarrow> gd_world \<Rightarrow> bool" for L :: lib where
  gd_start: "cache_file w = None \<Longrightarrow> gd_reachable L (gd_init w)"
| gd_build: "gd_reachable L w \<Longrightarrow> gd_reachable L (snd (gd_build_index L w))"
| gd_query: "gd_reachable L w \<Longrightarrow> gd_reachable L (snd (gd_search L q t n w))"
| gd_rerun: "gd_reachable L w \<Longrightarrow> gd_reachable L (gd_init w)"
| gd_files:
    "gd_reachable L w \<Longrightarrow>
     gd_reachable L (w\<lparr>list_images_in_folder := l, download_image := d, gd_writable := b\<rparr>)"

section \<open>Example worlds\<close>

text \<open>
  A small instance of the libraries: grey is the green channel, resizing repeats the
  top-left value and accepts every dtype but booleans and 32-bit integers, a query that
  is not \<^verbatim>\<open>uint8\<close> or differs in height from the stored array cannot be compared, two
  arrays that can score 1 when their top-left values agree and 1/4 when not, a buffer
  starting with byte 255 does not decode, and paths are joined with a slash.
\<close>

definition ex_lib :: lib where
  "ex_lib =
     \<lparr>luma = (\<lambda>(b, g, r). g),
      interp = (\<lambda>src x y. hd (hd src)),
      ssim = (\<lambda>q b. case q of
                       U8 a \<Rightarrow>
                         if length a \<noteq> length b
                         then Inl (ValueError ''Input images must have the same dimensions.'')
                         else Inr (if hd (hd a) = hd (hd b) then 1 else 1 / 4)
                     | Wide dt a \<Rightarrow> Inl (ValueError ''data_range must be given'')),
      imdecode = (\<lambda>buf. if hd buf = 255 then None else Some [[(hd buf, hd buf, hd buf)]]),
      os_path_join = (\<lambda>a p. a @ ''/'' @ p),
      resize_ok = (\<lambda>dt. dt = Uint16 \<or> dt = Float32),
      interp_wide = (\<lambda>src x y. hd (hd src))\<rparr>"

definition flat :: "8 word \<Rightarrow> gray" where
  "flat v = map (\<lambda>y. map (\<lambda>x. v) [0..<256]) [0..<256]"

definition ex_imread :: "string \<Rightarrow> bgr option" where
  "ex_imread p =
     (if p = ''ref/a.png'' \<or> p = ''shot.png'' then Some [[(10, 10, 10)]]
      else if p = ''ref/b.JPG'' then Some [[(20, 20, 20)]]
      else None)"

text \<open>A directory with two readable images, a text file and an unreadable image.\<close>

definition ex_app :: app_world where
  "ex_app =
     \<lparr>image_directory = ''ref'', image_features = [], is_indexed = False,
      listdir = Inr [''a.png'', ''notes.txt'', ''b.JPG'', ''bad.gif''],
      imread = ex_imread, index_file = None, writable = True, stdout = []\<rparr>"

definition ex_download :: "string \<Rightarrow> exn + 8 word list" where
  "ex_download i =
     (if i = ''id1'' \<or> i = ''id3'' then Inr [10]
      else if i = ''id2'' then Inr [255]
      else if i = ''id5'' then Inr [20]
      else Inl HttpError)"

definition ex_files :: "drive_file list" where
  "ex_files =
     [\<lparr>file_id = ''id1'', file_name = ''one.png'', mimeType = ''image/png''\<rparr>,
      \<lparr>file_id = ''id2'', file_name = ''two.png'', mimeType = ''image/png''\<rparr>,
      \<lparr>file_id = ''id3'', file_name = ''three.png'', mimeType = ''image/png''\<rparr>,
      \<lparr>file_id = ''id5'', file_name = ''five.jpg'', mimeType = ''image/jpeg''\<rparr>]"

text \<open>A folder with three images that decode and one that does not.\<close>

definition ex_gd :: gd_world where
  "ex_gd =
     \<lparr>gd_image_features = [], gd_image_metadata = [], gd_is_indexed = False,
      list_images_in_folder = Inr ex_files, download_image = ex_download,
      cache_file = None, gd_writable = True, st_log = []\<rparr>"

text \<open>The three entries that indexing \<open>ex_gd\<close> stores.\<close>

definition ex_features :: "gray pydict" where
  "ex_features = [(''id1'', flat 10), (''id3'', flat 10), (''id5'', flat 20)]"

definition ex_metadata :: "(string \<times> string) pydict" where
  "ex_metadata =
     [(''id1'', (''one.png'', ''image/png'')), (''id3'', (''three.png'', ''image/png'')),
      (''id5'', (''five.jpg'', ''image/jpeg''))]"

text \<open>An indexed engine whose index holds one entry of another shape.\<close>

definition ex_gd_indexed :: gd_world where
  "ex_gd_indexed =
     ex_gd\<lparr>gd_image_features := [(''id1'', flat 10), (''id0'', [[7]]), (''id3'', flat 10),
                                 (''id5'', flat 20)],
           gd_image_metadata := (''id0'', (''zero.png'', ''image/png'')) # ex_metadata,
           gd_is_indexed := True\<rparr>"

text \<open>
  The two entries that indexing \<open>ex_app\<close> stores, and an indexed engine that holds a
  third entry equal to the first and a fourth of another shape.
\<close>

definition ex_app_features :: "gray pydict" where
  "ex_app_features = [(''ref/a.png'', flat 10), (''ref/b.JPG'', flat 20)]"

definition ex_app_indexed :: app_world where
  "ex_app_indexed =
     ex_app\<lparr>image_features := ex_app_features @ [(''ref/c.png'', flat 10), (''ref/d.png'', [[7]])],
            is_indexed := True\<rparr>"

section \<open>Evaluating the examples\<close>

lemma is_image_name_ex:
  "is_image_name ''a.png''" "\<not> is_image_name ''notes.txt''"
  "is_image_name ''b.JPG''" "is_image_name ''bad.gif''"
  by code_simp+

lemma ex_os_path_join: "os_path_join ex_lib a p = a @ ''/'' @ p"
  by (simp add: ex_lib_def)

lemma ex_preprocess_image:
  "preprocess_image ex_lib ex_imread ''ref/a.png'' = Inr (flat 10)"
  "preprocess_image ex_lib ex_imread ''ref/b.JPG'' = Inr (flat 20)"
  "preprocess_image ex_lib ex_imread ''shot.png'' = Inr (flat 10)"
  "preprocess_image ex_lib ex_imread ''ref/bad.gif'' =
     Inl (ValueError ''Could not read image: ref/bad.gif'')"
  by (simp_all add: preprocess_image_def ex_imread_def ex_lib_def cv2_cvtColor_BGR2GRAY_def
      cv2_resize_def flat_def)

lemma ex_preprocess_buffer:
  "preprocess_image_from_buffer ex_lib [10] = Inr (flat 10)"
  "preprocess_image_from_buffer ex_lib [20] = Inr (flat 20)"
  "preprocess_image_from_buffer ex_lib [255] = Inl (ValueError ''Could not decode image'')"
  by (simp_all add: preprocess_image_from_buffer_def ex_lib_def cv2_cvtColor_BGR2GRAY_def
      cv2_resize_def flat_def)

lemma length_flat: "length (flat v) = 256"
  by (simp add: flat_def)

lemma hd_hd_flat: "hd (hd (flat v)) = v"
  by (simp add: flat_def hd_map)

lemma ex_similarity:
  "compute_similarity ex_lib (U8 (flat 10)) (flat 10) = Inr 1"
  "compute_similarity ex_lib (U8 (flat 10)) (flat 20) = Inr (1 / 4)"
  "compute_similarity ex_lib (U8 (flat 10)) [[7]] =
     Inl (ValueError ''Input images must have the same dimensions.'')"
  by (simp_all add: compute_similarity_def ex_lib_def length_flat hd_hd_flat)

lemma ex_app_build:
  "app_build_index ex_lib force ex_app =
     (Inr None,
      ex_app\<lparr>image_features := ex_app_features,
             stdout := [ErrorProcessing ''ref/bad.gif''
                          (ValueError ''Could not read image: ref/bad.gif'')],
             index_file := Some (Pickled ex_app_features), is_indexed := True\<rparr>)"
  by (simp add: app_build_index_def app_save_index_def ex_app_def ex_app_features_def
      is_image_name_ex ex_preprocess_image ex_os_path_join Let_def)

lemma ex_gd_build:
  "gd_build_index ex_lib ex_gd =
     (Inr None,
      ex_gd\<lparr>gd_image_features := ex_features, gd_image_metadata := ex_metadata,
            cache_file := Some (Pickled \<lparr>cached_features = Some ex_features,
                                         cached_metadata = Some ex_metadata\<rparr>),
            st_log := [StWarning ''two.png'' (ValueError ''Could not decode image''),
                       StSuccessIndexed 4],
            gd_is_indexed := True\<rparr>)"
  by (simp add: gd_build_index_def gd_load_cache_def gd_save_cache_def ex_gd_def ex_files_def
      ex_download_def ex_features_def ex_metadata_def dict_contains_def ex_preprocess_buffer
      download_and_process_def Let_def)

section \<open>Ranking: the scan, the sort and the slice\<close>

lemma search_scan_fst:
  "fst (search_scan L q t d (rs, out)) =
     rs @ concat (map (\<lambda>(k, img). case compute_similarity L q img of
                          Inr s \<Rightarrow> if t \<le> s then [(k, s)] else [] | Inl e \<Rightarrow> []) d)"
  by (induction d arbitrary: rs out) (auto split: sum.splits)

lemma search_scan_snd:
  "snd (search_scan L q t d (rs, out)) =
     out @ concat (map (\<lambda>(k, img). case compute_similarity L q img of
                          Inr s \<Rightarrow> [] | Inl e \<Rightarrow> [ErrorComparing k e]) d)"
  by (induction d arbitrary: rs out) (auto split: sum.splits)

lemma search_scan_scores:
  "e \<in> set (fst (search_scan L q t d ([], out))) \<Longrightarrow> t \<le> snd e"
  by (auto simp: search_scan_fst split: sum.splits if_splits)

lemma py_sort_reverse_set: "set (py_sort_reverse key xs) = set xs"
  by (simp add: py_sort_reverse_def)

lemma py_sort_reverse_sorted: "sorted_wrt (\<lambda>a b. key b \<le> key a) (py_sort_reverse key xs)"
proof -
  have "sorted (map key (sort_key key (rev xs)))" by simp
  then have "sorted_wrt (\<lambda>a b. key a \<le> key b) (sort_key key (rev xs))"
    by (simp add: sorted_map)
  then show ?thesis
    by (simp add: py_sort_reverse_def sorted_wrt_rev)
qed

lemma py_sort_reverse_stable:
  "filter (\<lambda>x. key x = c) (py_sort_reverse key xs) = filter (\<lambda>x. key x = c) xs"
  by (simp add: py_sort_reverse_def rev_filter[symmetric] sort_key_stable)

lemma py_slice_to_nonneg: "0 \<le> n \<Longrightarrow> py_slice_to xs n = take (nat n) xs"
  by (simp add: py_slice_to_def)

lemma ranked_props:
  assumes "0 \<le> n"
  shows "length (py_slice_to (py_sort_reverse snd (fst (search_scan L q t d ([], out)))) n) \<le> nat n"
    and "\<forall>e \<in> set (py_slice_to (py_sort_reverse snd (fst (search_scan L q t d ([], out)))) n). t \<le> snd e"
    and "sorted_wrt (\<lambda>a b. snd b \<le> snd a) (py_slice_to (py_sort_reverse snd (fst (search_scan L q t d ([], out)))) n)"
proof -
  let ?rs = "fst (search_scan L q t d ([], out))"
  show "length (py_slice_to (py_sort_reverse snd ?rs) n) \<le> nat n"
    using assms by (simp add: py_slice_to_nonneg)
  show "\<forall>e \<in> set (py_slice_to (py_sort_reverse snd ?rs) n). t \<le> snd e"
  proof
    fix e assume "e \<in> set (py_slice_to (py_sort_reverse snd ?rs) n)"
    then have "e \<in> set (py_sort_reverse snd ?rs)"
      using assms by (auto simp: py_slice_to_nonneg dest: in_set_takeD)
    then show "t \<le> snd e"
      by (simp add: py_sort_reverse_set search_scan_scores)
  qed
  show "sorted_wrt (\<lambda>a b. snd b \<le> snd a) (py_slice_to (py_sort_reverse snd ?rs) n)"
    using assms py_sort_reverse_sorted[of snd ?rs]
    by (simp add: py_slice_to_nonneg sorted_wrt_take)
qed

lemma app_search_result:
  assumes "fst (app_search L p t n w) = Inr r"
  obtains q and w1 :: app_world where
    "r = py_slice_to (py_sort_reverse snd (fst (search_scan L q t (image_features w1) ([], stdout w1)))) n"
proof -
  obtain res w1 where
    b: "(if \<not> is_indexed w then app_build_index L False w else (Inr None, w)) = (res, w1)"
    by (meson surj_pair)
  from assms b obtain x where x: "res = Inr x"
    by (cases res) (simp_all add: app_search_def)
  from assms b x obtain q where q: "preprocess_image L (imread w1) p = Inr q"
    by (cases "preprocess_image L (imread w1) p") (simp_all add: app_search_def)
  from assms b x q have
    "r = py_slice_to (py_sort_reverse snd (fst (search_scan L (U8 q) t (image_features w1) ([], stdout w1)))) n"
    by (simp add: app_search_def Let_def case_prod_beta)
  then show thesis by (rule that)
qed

lemma gd_search_result:
  assumes "fst (gd_search L qi t n w) = Inr r"
  obtains q and w1 :: gd_world where
    "r = py_slice_to (py_sort_reverse snd (fst (search_scan L q t (gd_image_features w1) ([], st_log w1)))) n"
proof -
  obtain res w1 where
    b: "(if \<not> gd_is_indexed w then gd_build_index L w else (Inr None, w)) = (res, w1)"
    by (meson surj_pair)
  from assms b obtain x where x: "res = Inr x"
    by (cases res) (simp_all add: gd_search_def)
  from assms b x obtain q where q: "query_array L qi = Inr q"
    by (cases "query_array L qi") (simp_all add: gd_search_def)
  from assms b x q have
    "r = py_slice_to (py_sort_reverse snd (fst (search_scan L q t (gd_image_features w1) ([], st_log w1)))) n"
    by (simp add: gd_search_def Let_def case_prod_beta)
  then show thesis by (rule that)
qed

text \<open>
  C1. For every index, query, threshold \<open>t\<close> and limit \<open>n \<ge> 0\<close>, the list that
  \<^verbatim>\<open>search\<close> returns has at most \<open>n\<close> entries, every score in it is at least \<open>t\<close>,
  and its scores are in descending order. Both engines.
\<close>

theorem search_limit_threshold_order:
  assumes "0 \<le> n"
  shows "(fst (app_search L p t n w) = Inr r \<longrightarrow>
            length r \<le> nat n \<and> (\<forall>e \<in> set r. t \<le> snd e) \<and> sorted_wrt (\<lambda>a b. snd b \<le> snd a) r)
       \<and> (fst (gd_search L qi t n g) = Inr r' \<longrightarrow>
            length r' \<le> nat n \<and> (\<forall>e \<in> set r'. t \<le> snd e) \<and> sorted_wrt (\<lambda>a b. snd b \<le> snd a) r')"
proof (intro conjI impI)
  assume "fst (app_search L p t n w) = Inr r"
  then obtain q and w1 :: app_world where
    r: "r = py_slice_to (py_sort_reverse snd (fst (search_scan L q t (image_features w1) ([], stdout w1)))) n"
    by (rule app_search_result)
  show "length r \<le> nat n" "\<forall>e \<in> set r. t \<le> snd e" "sorted_wrt (\<lambda>a b. snd b \<le> snd a) r"
    unfolding r by (rule ranked_props[OF assms])+
next
  assume "fst (gd_search L qi t n g) = Inr r'"
  then obtain q and w1 :: gd_world where
    r: "r' = py_slice_to (py_sort_reverse snd (fst (search_scan L q t (gd_image_features w1) ([], st_log w1)))) n"
    by (rule gd_search_result)
  show "length r' \<le> nat n" "\<forall>e \<in> set r'. t \<le> snd e" "sorted_wrt (\<lambda>a b. snd b \<le> snd a) r'"
    unfolding r by (rule ranked_props[OF assms])+
qed


text \<open>The two example searches.\<close>

lemma ex_app_search:
  "app_search ex_lib ''shot.png'' (1 / 5) 3 ex_app =
     (Inr [(''ref/a.png'', 1), (''ref/b.JPG'', 1 / 4)],
      ex_app\<lparr>image_features := ex_app_features,
             stdout := [ErrorProcessing ''ref/bad.gif''
                          (ValueError ''Could not read image: ref/bad.gif'')],
             index_file := Some (Pickled ex_app_features), is_indexed := True\<rparr>)"
proof -
  have "\<not> is_indexed ex_app" "imread ex_app = ex_imread"
    by (simp_all add: ex_app_def)
  then show ?thesis
    by (simp add: app_search_def ex_app_build ex_preprocess_image ex_app_features_def
        ex_similarity py_sort_reverse_def py_slice_to_def)
qed

lemma ex_gd_search:
  "gd_search ex_lib (Ndarray (U8 (flat 10))) (1 / 5) 2 ex_gd_indexed =
     (Inr [(''id1'', 1), (''id3'', 1)],
      ex_gd_indexed\<lparr>st_log := [ErrorComparing ''id0''
                       (ValueError ''Input images must have the same dimensions.'')]\<rparr>)"
  by (simp add: gd_search_def query_array_def ex_gd_indexed_def ex_gd_def ex_similarity
      py_sort_reverse_def py_slice_to_def)

theorem search_limit_threshold_order_witness:
  "(0::int) \<le> 3 \<and> (0::int) \<le> 2
   \<and> fst (app_search ex_lib ''shot.png'' (1 / 5) 3 ex_app)
       = Inr [(''ref/a.png'', 1), (''ref/b.JPG'', 1 / 4)]
   \<and> fst (gd_search ex_lib (Ndarray (U8 (flat 10))) (1 / 5) 2 ex_gd_indexed)
       = Inr [(''id1'', 1), (''id3'', 1)]
   \<and> length [(''ref/a.png'', 1::real), (''ref/b.JPG'', 1 / 4)] \<le> nat 3
   \<and> length [(''id1'', 1::real), (''id3'', 1)] \<le> nat 2
   \<and> sorted_wrt (\<lambda>a b. snd b \<le> snd a) [(''ref/a.png'', 1::real), (''ref/b.JPG'', 1 / 4)]"
proof -
  have a: "fst (app_search ex_lib ''shot.png'' (1 / 5) 3 ex_app)
             = Inr [(''ref/a.png'', 1), (''ref/b.JPG'', 1 / 4)]"
    by (simp add: ex_app_search)
  have g: "fst (gd_search ex_lib (Ndarray (U8 (flat 10))) (1 / 5) 2 ex_gd_indexed)
             = Inr [(''id1'', 1), (''id3'', 1)]"
    by (simp add: ex_gd_search)
  have n: "(0::int) \<le> 3" "(0::int) \<le> 2" by simp_all
  from a search_limit_threshold_order[OF n(1), of ex_lib "''shot.png''" "1 / 5" ex_app
      "[(''ref/a.png'', 1), (''ref/b.JPG'', 1 / 4)]"]
  have 1: "length [(''ref/a.png'', 1::real), (''ref/b.JPG'', 1 / 4)] \<le> nat 3"
    "sorted_wrt (\<lambda>a b. snd b \<le> snd a) [(''ref/a.png'', 1::real), (''ref/b.JPG'', 1 / 4)]"
    by blast+
  from g search_limit_threshold_order[OF n(2), of ex_lib _ "1 / 5" _ _
      "Ndarray (U8 (flat 10))" ex_gd_indexed "[(''id1'', 1), (''id3'', 1)]"]
  have 2: "length [(''id1'', 1::real), (''id3'', 1)] \<le> nat 2"
    by blast
  from a g n 1 2 show ?thesis by blast
qed

section \<open>What a search does once the engine is indexed\<close>

lemma app_search_indexed:
  "is_indexed w \<Longrightarrow>
   app_search L p t n w =
     (case preprocess_image L (imread w) p of
        Inl e \<Rightarrow> (Inl e, w)
      | Inr q \<Rightarrow>
          (Inr (py_slice_to (py_sort_reverse snd
                  (fst (search_scan L (U8 q) t (image_features w) ([], stdout w)))) n),
           w\<lparr>stdout := snd (search_scan L (U8 q) t (image_features w) ([], stdout w))\<rparr>))"
  by (simp add: app_search_def case_prod_beta split: sum.splits)

lemma gd_search_indexed:
  "gd_is_indexed w \<Longrightarrow>
   gd_search L qi t n w =
     (case query_array L qi of
        Inl e \<Rightarrow> (Inl e, w)
      | Inr q \<Rightarrow>
          (Inr (py_slice_to (py_sort_reverse snd
                  (fst (search_scan L q t (gd_image_features w) ([], st_log w)))) n),
           w\<lparr>st_log := snd (search_scan L q t (gd_image_features w) ([], st_log w))\<rparr>))"
  by (simp add: gd_search_def case_prod_beta split: sum.splits)

lemma ex_app_indexed_search:
  "app_search ex_lib ''shot.png'' (1 / 5) 3 ex_app_indexed =
     (Inr [(''ref/a.png'', 1), (''ref/c.png'', 1), (''ref/b.JPG'', 1 / 4)],
      ex_app_indexed\<lparr>stdout := [ErrorComparing ''ref/d.png''
                       (ValueError ''Input images must have the same dimensions.'')]\<rparr>)"
proof -
  have "is_indexed ex_app_indexed" "imread ex_app_indexed = ex_imread"
    "stdout ex_app_indexed = []"
    "image_features ex_app_indexed =
       [(''ref/a.png'', flat 10), (''ref/b.JPG'', flat 20), (''ref/c.png'', flat 10),
        (''ref/d.png'', [[7]])]"
    by (simp_all add: ex_app_indexed_def ex_app_def ex_app_features_def)
  then show ?thesis
    by (simp add: app_search_indexed ex_preprocess_image ex_similarity py_sort_reverse_def
        py_slice_to_def)
qed

text \<open>
  C10. When \<^verbatim>\<open>is_indexed\<close> is true, \<^verbatim>\<open>search\<close> leaves the engine as it was:
  \<^verbatim>\<open>image_features\<close>, \<^verbatim>\<open>image_metadata\<close> (searchAPP.py) and \<^verbatim>\<open>is_indexed\<close> are the
  same before and after the call, for every query, threshold and limit, also when the
  call raises. Only the printed lines can grow.
\<close>

theorem search_frame:
  "(is_indexed w \<longrightarrow>
      image_features (snd (app_search L p t n w)) = image_features w
      \<and> is_indexed (snd (app_search L p t n w)) = is_indexed w
      \<and> snd (app_search L p t n w) = w\<lparr>stdout := stdout (snd (app_search L p t n w))\<rparr>)
   \<and> (gd_is_indexed g \<longrightarrow>
      gd_image_features (snd (gd_search L qi t n g)) = gd_image_features g
      \<and> gd_image_metadata (snd (gd_search L qi t n g)) = gd_image_metadata g
      \<and> gd_is_indexed (snd (gd_search L qi t n g)) = gd_is_indexed g
      \<and> snd (gd_search L qi t n g) = g\<lparr>st_log := st_log (snd (gd_search L qi t n g))\<rparr>)"
  by (simp add: app_search_indexed gd_search_indexed split: sum.splits)

theorem search_frame_witness:
  "is_indexed ex_app_indexed \<and> gd_is_indexed ex_gd_indexed
   \<and> image_features (snd (app_search ex_lib ''shot.png'' (1 / 5) 3 ex_app_indexed))
       = image_features ex_app_indexed
   \<and> gd_image_metadata (snd (gd_search ex_lib (Ndarray (U8 (flat 10))) (1 / 5) 3 ex_gd_indexed))
       = gd_image_metadata ex_gd_indexed"
proof -
  have h: "is_indexed ex_app_indexed" "gd_is_indexed ex_gd_indexed"
    by (simp_all add: ex_app_indexed_def ex_gd_indexed_def)
  with search_frame[where w = ex_app_indexed and L = ex_lib and p = "''shot.png''"
      and t = "1 / 5" and n = 3 and g = ex_gd_indexed and qi = "Ndarray (U8 (flat 10))"]
  show ?thesis by blast
qed

section \<open>Empty results and ties\<close>

lemma search_scan_no_match:
  assumes "\<forall>(k, img) \<in> set d. \<forall>s. compute_similarity L q img = Inr s \<longrightarrow> s < t"
  shows "fst (search_scan L q t d ([], out)) = []"
  using assms by (induction d) (auto simp: search_scan_fst split: sum.splits)

lemma py_rank_Nil: "py_slice_to (py_sort_reverse key []) n = []"
  by (simp add: py_slice_to_def py_sort_reverse_def)

text \<open>
  C8. On an indexed engine, \<^verbatim>\<open>search\<close> returns the empty list, as a normal result,
  when the index is empty and when no entry's score reaches the threshold, for every
  query feature, threshold and limit. More generally, whenever \<^verbatim>\<open>search\<close> returns
  and the index it leaves behind (the one it scanned) is empty, the list is empty.
\<close>

theorem search_empty:
  "(is_indexed w \<and> preprocess_image L (imread w) p = Inr q \<and> image_features w = []
      \<longrightarrow> fst (app_search L p t n w) = Inr [])
   \<and> (is_indexed w \<and> preprocess_image L (imread w) p = Inr q
       \<and> (\<forall>(k, img) \<in> set (image_features w).
             \<forall>s. compute_similarity L (U8 q) img = Inr s \<longrightarrow> s < t)
      \<longrightarrow> fst (app_search L p t n w) = Inr [])
   \<and> (gd_is_indexed g \<and> query_array L qi = Inr q' \<and> gd_image_features g = []
      \<longrightarrow> fst (gd_search L qi t n g) = Inr [])
   \<and> (gd_is_indexed g \<and> query_array L qi = Inr q'
       \<and> (\<forall>(k, img) \<in> set (gd_image_features g).
             \<forall>s. compute_similarity L q' img = Inr s \<longrightarrow> s < t)
      \<longrightarrow> fst (gd_search L qi t n g) = Inr [])
   \<and> (fst (app_search L p t n w) = Inr r \<and> image_features (snd (app_search L p t n w)) = []
      \<longrightarrow> r = [])
   \<and> (fst (gd_search L qi t n g) = Inr r' \<and> gd_image_features (snd (gd_search L qi t n g)) = []
      \<longrightarrow> r' = [])"
proof (intro conjI impI; (elim conjE)?)
  assume "is_indexed w" "preprocess_image L (imread w) p = Inr q" "image_features w = []"
  then show "fst (app_search L p t n w) = Inr []"
    by (simp add: app_search_indexed py_rank_Nil)
next
  assume "is_indexed w" "preprocess_image L (imread w) p = Inr q"
    "\<forall>(k, img) \<in> set (image_features w). \<forall>s. compute_similarity L (U8 q) img = Inr s \<longrightarrow> s < t"
  then show "fst (app_search L p t n w) = Inr []"
    by (simp add: app_search_indexed search_scan_no_match py_rank_Nil)
next
  assume "gd_is_indexed g" "query_array L qi = Inr q'" "gd_image_features g = []"
  then show "fst (gd_search L qi t n g) = Inr []"
    by (simp add: gd_search_indexed py_rank_Nil)
next
  assume "gd_is_indexed g" "query_array L qi = Inr q'"
    "\<forall>(k, img) \<in> set (gd_image_features g). \<forall>s. compute_similarity L q' img = Inr s \<longrightarrow> s < t"
  then show "fst (gd_search L qi t n g) = Inr []"
    by (simp add: gd_search_indexed search_scan_no_match py_rank_Nil)
next
  assume a: "fst (app_search L p t n w) = Inr r"
    and e: "image_features (snd (app_search L p t n w)) = []"
  obtain res w1 where
    b: "(if \<not> is_indexed w then app_build_index L False w else (Inr None, w)) = (res, w1)"
    by (meson surj_pair)
  from a b obtain x where x: "res = Inr x"
    by (cases res) (simp_all add: app_search_def)
  from a b x obtain q0 where q: "preprocess_image L (imread w1) p = Inr q0"
    by (cases "preprocess_image L (imread w1) p") (simp_all add: app_search_def)
  from b x q e have "image_features w1 = []"
    by (simp add: app_search_def case_prod_beta)
  with a b x q show "r = []"
    by (simp add: app_search_def case_prod_beta py_rank_Nil)
next
  assume a: "fst (gd_search L qi t n g) = Inr r'"
    and e: "gd_image_features (snd (gd_search L qi t n g)) = []"
  obtain res w1 where
    b: "(if \<not> gd_is_indexed g then gd_build_index L g else (Inr None, g)) = (res, w1)"
    by (meson surj_pair)
  from a b obtain x where x: "res = Inr x"
    by (cases res) (simp_all add: gd_search_def)
  from a b x obtain q0 where q: "query_array L qi = Inr q0"
    by (cases "query_array L qi") (simp_all add: gd_search_def)
  from b x q e have "gd_image_features w1 = []"
    by (simp add: gd_search_def case_prod_beta)
  with a b x q show "r' = []"
    by (simp add: gd_search_def case_prod_beta py_rank_Nil)
qed

theorem search_empty_witness:
  "is_indexed (ex_app\<lparr>is_indexed := True\<rparr>)
   \<and> preprocess_image ex_lib (imread (ex_app\<lparr>is_indexed := True\<rparr>)) ''shot.png'' = Inr (flat 10)
   \<and> image_features (ex_app\<lparr>is_indexed := True\<rparr>) = []
   \<and> fst (app_search ex_lib ''shot.png'' (1 / 5) 3 (ex_app\<lparr>is_indexed := True\<rparr>)) = Inr []
   \<and> is_indexed ex_app_indexed
   \<and> fst (app_search ex_lib ''shot.png'' 2 3 ex_app_indexed) = Inr []
   \<and> gd_is_indexed (ex_gd\<lparr>gd_is_indexed := True\<rparr>)
   \<and> gd_image_features (ex_gd\<lparr>gd_is_indexed := True\<rparr>) = []
   \<and> fst (gd_search ex_lib (Ndarray (U8 (flat 10))) (1 / 5) 3 (ex_gd\<lparr>gd_is_indexed := True\<rparr>)) = Inr []
   \<and> gd_is_indexed ex_gd_indexed
   \<and> fst (gd_search ex_lib (Ndarray (U8 (flat 10))) 2 3 ex_gd_indexed) = Inr []"
proof -
  let ?w = "ex_app\<lparr>is_indexed := True\<rparr>" and ?g = "ex_gd\<lparr>gd_is_indexed := True\<rparr>"
  have w: "is_indexed ?w" "preprocess_image ex_lib (imread ?w) ''shot.png'' = Inr (flat 10)"
    "image_features ?w = []"
    by (simp_all add: ex_app_def ex_preprocess_image)
  have g: "gd_is_indexed ?g" "query_array ex_lib (Ndarray (U8 (flat 10))) = Inr (U8 (flat 10))"
    "gd_image_features ?g = []"
    by (simp_all add: ex_gd_def query_array_def)
  have wi: "is_indexed ex_app_indexed"
    "preprocess_image ex_lib (imread ex_app_indexed) ''shot.png'' = Inr (flat 10)"
    "\<forall>(k, img) \<in> set (image_features ex_app_indexed).
       \<forall>s. compute_similarity ex_lib (U8 (flat 10)) img = Inr s \<longrightarrow> s < 2"
    by (simp_all add: ex_app_indexed_def ex_app_def ex_app_features_def ex_preprocess_image
        ex_similarity)
  have gi: "gd_is_indexed ex_gd_indexed"
    "\<forall>(k, img) \<in> set (gd_image_features ex_gd_indexed).
       \<forall>s. compute_similarity ex_lib (U8 (flat 10)) img = Inr s \<longrightarrow> s < 2"
    by (simp_all add: ex_gd_indexed_def ex_gd_def ex_similarity)
  have 1: "fst (app_search ex_lib ''shot.png'' (1 / 5) 3 ?w) = Inr []"
    using w search_empty[where w = ?w and L = ex_lib and p = "''shot.png''" and q = "flat 10"
        and t = "1 / 5" and n = 3]
    by blast
  have 2: "fst (app_search ex_lib ''shot.png'' 2 3 ex_app_indexed) = Inr []"
    using wi search_empty[where w = ex_app_indexed and L = ex_lib and p = "''shot.png''"
        and q = "flat 10" and t = 2 and n = 3]
    by blast
  have 3: "fst (gd_search ex_lib (Ndarray (U8 (flat 10))) (1 / 5) 3 ?g) = Inr []"
    using g search_empty[where g = ?g and L = ex_lib and qi = "Ndarray (U8 (flat 10))"
        and q' = "U8 (flat 10)" and t = "1 / 5" and n = 3]
    by blast
  have 4: "fst (gd_search ex_lib (Ndarray (U8 (flat 10))) 2 3 ex_gd_indexed) = Inr []"
    using gi g(2) search_empty[where g = ex_gd_indexed and L = ex_lib
        and qi = "Ndarray (U8 (flat 10))" and q' = "U8 (flat 10)" and t = 2 and n = 3]
    by blast
  from w g(1,3) wi(1) gi(1) 1 2 3 4 show ?thesis by blast
qed

lemma subseq_py_slice_to: "subseq (py_slice_to xs n) xs"
proof -
  have "subseq (take k xs) xs" for k
    by (metis append_take_drop_id subseq_rev_drop_many subseq_order.order_refl)
  then show ?thesis by (simp add: py_slice_to_def)
qed

lemma scan_keys_subseq:
  "subseq (map fst (fst (search_scan L q t d ([], out)))) (map fst d)"
proof -
  let ?F = "\<lambda>(k, img). case compute_similarity L q img of
               Inr s \<Rightarrow> if t \<le> s then [(k, s)] else [] | Inl e \<Rightarrow> []"
  have "subseq (map fst (concat (map ?F d))) (map fst d)"
    by (induction d) (auto split: sum.splits)
  then show ?thesis by (simp add: search_scan_fst)
qed

lemma ties_keep_order:
  assumes "subseq [e1, e2] (py_slice_to (py_sort_reverse key rs) n)" and "key e1 = key e2"
  shows "subseq [e1, e2] rs"
proof -
  let ?P = "\<lambda>x. key x = key e1"
  from assms(1) have "subseq [e1, e2] (py_sort_reverse key rs)"
    using subseq_py_slice_to subseq_order.order_trans by blast
  then have "subseq (filter ?P [e1, e2]) (filter ?P (py_sort_reverse key rs))"
    by (rule subseq_filter)
  with assms(2) have "subseq [e1, e2] (filter ?P rs)"
    by (simp add: py_sort_reverse_stable)
  then show ?thesis
    using subseq_filter_left subseq_order.order_trans by blast
qed

lemma ranked_ties:
  assumes "subseq [e1, e2]
             (py_slice_to (py_sort_reverse snd (fst (search_scan L q t d ([], out)))) n)"
    and "snd e1 = snd e2"
  shows "subseq [fst e1, fst e2] (map fst d)"
proof -
  from assms have "subseq [e1, e2] (fst (search_scan L q t d ([], out)))"
    by (rule ties_keep_order)
  then have "subseq (map fst [e1, e2]) (map fst (fst (search_scan L q t d ([], out))))"
    by (rule subseq_map)
  then show ?thesis
    using scan_keys_subseq[of L q t d out] subseq_order.order_trans by fastforce
qed

text \<open>
  C6. Entries with equal scores come out of \<^verbatim>\<open>search\<close> in the index's iteration order:
  when \<open>e1\<close> stands before \<open>e2\<close> in the returned list and their scores are equal, the
  key of \<open>e1\<close> stands before the key of \<open>e2\<close> in \<^verbatim>\<open>image_features\<close>. Both engines, every
  limit.
\<close>

theorem search_ties_in_index_order:
  "(fst (app_search L p t n w) = Inr r \<and> subseq [e1, e2] r \<and> snd e1 = snd e2
      \<longrightarrow> subseq [fst e1, fst e2] (map fst (image_features (snd (app_search L p t n w)))))
   \<and> (fst (gd_search L qi t n g) = Inr r' \<and> subseq [e1', e2'] r' \<and> snd e1' = snd e2'
      \<longrightarrow> subseq [fst e1', fst e2']
            (map fst (gd_image_features (snd (gd_search L qi t n g)))))"
proof (intro conjI impI; elim conjE)
  assume a: "fst (app_search L p t n w) = Inr r" and s: "subseq [e1, e2] r" "snd e1 = snd e2"
  obtain res w1 where
    b: "(if \<not> is_indexed w then app_build_index L False w else (Inr None, w)) = (res, w1)"
    by (meson surj_pair)
  from a b obtain x where x: "res = Inr x"
    by (cases res) (simp_all add: app_search_def)
  from a b x obtain q0 where q: "preprocess_image L (imread w1) p = Inr q0"
    by (cases "preprocess_image L (imread w1) p") (simp_all add: app_search_def)
  from b x q have f: "image_features (snd (app_search L p t n w)) = image_features w1"
    by (simp add: app_search_def case_prod_beta)
  from a b x q have
    "r = py_slice_to (py_sort_reverse snd
           (fst (search_scan L (U8 q0) t (image_features w1) ([], stdout w1)))) n"
    by (simp add: app_search_def case_prod_beta)
  with s have "subseq [fst e1, fst e2] (map fst (image_features w1))"
    using ranked_ties by blast
  with f show "subseq [fst e1, fst e2] (map fst (image_features (snd (app_search L p t n w))))"
    by simp
next
  assume a: "fst (gd_search L qi t n g) = Inr r'"
    and s: "subseq [e1', e2'] r'" "snd e1' = snd e2'"
  obtain res w1 where
    b: "(if \<not> gd_is_indexed g then gd_build_index L g else (Inr None, g)) = (res, w1)"
    by (meson surj_pair)
  from a b obtain x where x: "res = Inr x"
    by (cases res) (simp_all add: gd_search_def)
  from a b x obtain q0 where q: "query_array L qi = Inr q0"
    by (cases "query_array L qi") (simp_all add: gd_search_def)
  from b x q have f: "gd_image_features (snd (gd_search L qi t n g)) = gd_image_features w1"
    by (simp add: gd_search_def case_prod_beta)
  from a b x q have
    "r' = py_slice_to (py_sort_reverse snd
           (fst (search_scan L q0 t (gd_image_features w1) ([], st_log w1)))) n"
    by (simp add: gd_search_def case_prod_beta)
  with s have "subseq [fst e1', fst e2'] (map fst (gd_image_features w1))"
    using ranked_ties by blast
  with f show "subseq [fst e1', fst e2']
                 (map fst (gd_image_features (snd (gd_search L qi t n g))))"
    by simp
qed

theorem search_ties_in_index_order_witness:
  "fst (app_search ex_lib ''shot.png'' (1 / 5) 3 ex_app_indexed)
     = Inr [(''ref/a.png'', 1), (''ref/c.png'', 1), (''ref/b.JPG'', 1 / 4)]
   \<and> subseq [(''ref/a.png'', 1::real), (''ref/c.png'', 1)]
        [(''ref/a.png'', 1), (''ref/c.png'', 1), (''ref/b.JPG'', 1 / 4)]
   \<and> subseq [''ref/a.png'', ''ref/c.png'']
        (map fst (image_features (snd (app_search ex_lib ''shot.png'' (1 / 5) 3 ex_app_indexed))))
   \<and> fst (gd_search ex_lib (Ndarray (U8 (flat 10))) (1 / 5) 2 ex_gd_indexed)
       = Inr [(''id1'', 1), (''id3'', 1)]
   \<and> subseq [''id1'', ''id3'']
        (map fst (gd_image_features
           (snd (gd_search ex_lib (Ndarray (U8 (flat 10))) (1 / 5) 2 ex_gd_indexed))))"
proof -
  have a: "fst (app_search ex_lib ''shot.png'' (1 / 5) 3 ex_app_indexed)
             = Inr [(''ref/a.png'', 1), (''ref/c.png'', 1), (''ref/b.JPG'', 1 / 4)]"
    by (simp add: ex_app_indexed_search)
  have sa: "subseq [(''ref/a.png'', 1::real), (''ref/c.png'', 1)]
              [(''ref/a.png'', 1), (''ref/c.png'', 1), (''ref/b.JPG'', 1 / 4)]"
    by simp
  have g: "fst (gd_search ex_lib (Ndarray (U8 (flat 10))) (1 / 5) 2 ex_gd_indexed)
             = Inr [(''id1'', 1), (''id3'', 1)]"
    by (simp add: ex_gd_search)
  have sg: "subseq [(''id1'', 1::real), (''id3'', 1)] [(''id1'', 1), (''id3'', 1)]"
    by simp
  have 1: "subseq [''ref/a.png'', ''ref/c.png'']
        (map fst (image_features (snd (app_search ex_lib ''shot.png'' (1 / 5) 3 ex_app_indexed))))"
    using a sa search_ties_in_index_order[where L = ex_lib and p = "''shot.png''"
        and t = "1 / 5" and n = 3 and w = ex_app_indexed
        and r = "[(''ref/a.png'', 1), (''ref/c.png'', 1), (''ref/b.JPG'', 1 / 4)]"
        and ?e1.0 = "(''ref/a.png'', 1)" and ?e2.0 = "(''ref/c.png'', 1)"]
    by simp
  have 2: "subseq [''id1'', ''id3'']
        (map fst (gd_image_features
           (snd (gd_search ex_lib (Ndarray (U8 (flat 10))) (1 / 5) 2 ex_gd_indexed))))"
    using g sg search_ties_in_index_order[where L = ex_lib and qi = "Ndarray (U8 (flat 10))"
        and t = "1 / 5" and n = 2 and g = ex_gd_indexed
        and r' = "[(''id1'', 1), (''id3'', 1)]"
        and e1' = "(''id1'', 1)" and e2' = "(''id3'', 1)"]
    by simp
  from a sa g 1 2 show ?thesis by blast
qed

section \<open>What build_index returns and how its load step fails\<close>

lemma app_build_index_no_report: "fst (app_build_index L force w) \<noteq> Inr (Some rep)"
  by (simp add: app_build_index_def Let_def split: sum.splits)

lemma gd_build_index_no_report: "fst (gd_build_index L g) \<noteq> Inr (Some rep)"
  by (simp add: gd_build_index_def Let_def split: sum.splits)

text \<open>
  C7, as the code has it. \<^verbatim>\<open>build_index\<close> has no \<^verbatim>\<open>return\<close> with a value: in both
  engines every call that returns gives \<^verbatim>\<open>None\<close>, never a report. The number of
  entries is only to be read from \<^verbatim>\<open>image_features\<close> afterwards.
\<close>

theorem build_index_returns_none:
  "fst (app_build_index L force w) \<noteq> Inr (Some rep)
   \<and> fst (gd_build_index L g) \<noteq> Inr (Some rep)"
  by (simp add: app_build_index_no_report gd_build_index_no_report)

text \<open>
  C7 as stated fails: a forced build of the example directory adds two entries and
  returns \<^verbatim>\<open>None\<close>, not a report of two added and two in total; the Drive engine adds
  three and returns \<^verbatim>\<open>None\<close> as well.
\<close>

theorem build_index_report_counterexample:
  "fst (app_build_index ex_lib True ex_app) = Inr None
   \<and> fst (app_build_index ex_lib True ex_app)
       \<noteq> Inr (Some \<lparr>added_count = 2, total_count = 2\<rparr>)
   \<and> length (image_features (snd (app_build_index ex_lib True ex_app))) = 2
   \<and> fst (gd_build_index ex_lib ex_gd) = Inr None
   \<and> length (gd_image_features (snd (gd_build_index ex_lib ex_gd))) = 3"
  by (simp add: ex_app_build ex_gd_build ex_app_features_def ex_features_def)

lemma app_build_index_errors:
  assumes "fst (app_build_index L force w) = Inl e"
  shows "(\<not> force \<and> \<not> is_indexed w \<and> index_file w = Some Unreadable \<and> e = OSError)
       \<or> (\<not> force \<and> \<not> is_indexed w \<and> index_file w = Some Corrupt \<and> e = UnpicklingError)
       \<or> listdir w = Inl e
       \<or> (\<not> writable w \<and> e = OSError)"
proof -
  have wr: "writable (index_loop L names v) = writable v" for names v
    by (induction names arbitrary: v) (auto simp: Let_def split: sum.splits)
  from assms show ?thesis
    by (auto simp: app_build_index_def app_load_index_def app_save_index_def Let_def wr
        split: if_splits sum.splits option.splits pickled.splits)
qed

text \<open>
  C5, as the code has it. A missing snapshot never makes the load raise: app.py goes on
  to build from an empty index (an error can then only come from the listing or the
  save), searchAPP.py starts from empty features and metadata. A snapshot that unpickles
  is loaded. A snapshot that is present but cannot be opened or unpickled makes
  \<^verbatim>\<open>build_index\<close> raise to its caller, the engine left as it was.
\<close>

theorem load_step_outcomes:
  "(\<not> is_indexed w \<and> index_file w = Some Corrupt
      \<longrightarrow> app_build_index L False w = (Inl UnpicklingError, w))
   \<and> (\<not> is_indexed w \<and> index_file w = Some Unreadable
      \<longrightarrow> app_build_index L False w = (Inl OSError, w))
   \<and> (\<not> is_indexed w \<and> index_file w = Some (Pickled d)
      \<longrightarrow> app_build_index L False w = (Inr None, w\<lparr>image_features := d, is_indexed := True\<rparr>))
   \<and> (index_file w = None \<and> fst (app_build_index L False w) = Inl e
      \<longrightarrow> listdir w = Inl e \<or> (e = OSError \<and> \<not> writable w))
   \<and> (cache_file g = Some Corrupt \<longrightarrow> gd_build_index L g = (Inl UnpicklingError, g))
   \<and> (cache_file g = Some Unreadable \<longrightarrow> gd_build_index L g = (Inl OSError, g))
   \<and> (cache_file g = Some (Pickled c)
      \<longrightarrow> gd_load_cache g =
            Inr (g\<lparr>gd_image_features := (case cached_features c of Some x \<Rightarrow> x | None \<Rightarrow> []),
                   gd_image_metadata := (case cached_metadata c of Some x \<Rightarrow> x | None \<Rightarrow> [])\<rparr>))
   \<and> (cache_file g = None
      \<longrightarrow> gd_load_cache g = Inr (g\<lparr>gd_image_features := [], gd_image_metadata := []\<rparr>))"
proof (intro conjI impI; (elim conjE)?)
  assume "index_file w = None" "fst (app_build_index L False w) = Inl e"
  then show "listdir w = Inl e \<or> (e = OSError \<and> \<not> writable w)"
    using app_build_index_errors[of L False w e] by auto
qed (simp_all add: app_build_index_def app_load_index_def gd_build_index_def gd_load_cache_def)

theorem load_step_outcomes_witness:
  "\<not> is_indexed (ex_app\<lparr>index_file := Some Corrupt\<rparr>)
   \<and> index_file (ex_app\<lparr>index_file := Some Corrupt\<rparr>) = Some Corrupt
   \<and> app_build_index ex_lib False (ex_app\<lparr>index_file := Some Corrupt\<rparr>)
       = (Inl UnpicklingError, ex_app\<lparr>index_file := Some Corrupt\<rparr>)
   \<and> app_build_index ex_lib False (ex_app\<lparr>index_file := Some Unreadable\<rparr>)
       = (Inl OSError, ex_app\<lparr>index_file := Some Unreadable\<rparr>)
   \<and> app_build_index ex_lib False (ex_app\<lparr>index_file := Some (Pickled ex_app_features)\<rparr>)
       = (Inr None, ex_app\<lparr>index_file := Some (Pickled ex_app_features),
                            image_features := ex_app_features, is_indexed := True\<rparr>)
   \<and> index_file (ex_app\<lparr>writable := False\<rparr>) = None
   \<and> fst (app_build_index ex_lib False (ex_app\<lparr>writable := False\<rparr>)) = Inl OSError
   \<and> gd_build_index ex_lib (ex_gd\<lparr>cache_file := Some Corrupt\<rparr>)
       = (Inl UnpicklingError, ex_gd\<lparr>cache_file := Some Corrupt\<rparr>)
   \<and> gd_build_index ex_lib (ex_gd\<lparr>cache_file := Some Unreadable\<rparr>)
       = (Inl OSError, ex_gd\<lparr>cache_file := Some Unreadable\<rparr>)
   \<and> cache_file ex_gd = None
   \<and> gd_load_cache ex_gd = Inr (ex_gd\<lparr>gd_image_features := [], gd_image_metadata := []\<rparr>)"
proof -
  have a: "\<not> is_indexed (ex_app\<lparr>index_file := x\<rparr>)" "index_file (ex_app\<lparr>index_file := x\<rparr>) = x"
    "index_file (ex_app\<lparr>writable := False\<rparr>) = None" "\<not> writable (ex_app\<lparr>writable := False\<rparr>)"
    for x
    by (simp_all add: ex_app_def)
  have g: "cache_file (ex_gd\<lparr>cache_file := y\<rparr>) = y" "cache_file ex_gd = None" for y
    by (simp_all add: ex_gd_def)
  have nw: "fst (app_build_index ex_lib False (ex_app\<lparr>writable := False\<rparr>)) = Inl OSError"
    by (simp add: app_build_index_def app_save_index_def ex_app_def is_image_name_ex
        ex_preprocess_image ex_os_path_join Let_def)
  note t = load_step_outcomes[where L = ex_lib]
  have 1: "app_build_index ex_lib False (ex_app\<lparr>index_file := Some Corrupt\<rparr>)
             = (Inl UnpicklingError, ex_app\<lparr>index_file := Some Corrupt\<rparr>)"
    using a t[where w = "ex_app\<lparr>index_file := Some Corrupt\<rparr>"] by blast
  have 2: "app_build_index ex_lib False (ex_app\<lparr>index_file := Some Unreadable\<rparr>)
             = (Inl OSError, ex_app\<lparr>index_file := Some Unreadable\<rparr>)"
    using a t[where w = "ex_app\<lparr>index_file := Some Unreadable\<rparr>"] by blast
  have 3: "app_build_index ex_lib False (ex_app\<lparr>index_file := Some (Pickled ex_app_features)\<rparr>)
       = (Inr None, ex_app\<lparr>index_file := Some (Pickled ex_app_features),
                            image_features := ex_app_features, is_indexed := True\<rparr>)"
    using a t[where w = "ex_app\<lparr>index_file := Some (Pickled ex_app_features)\<rparr>"
        and d = ex_app_features] by blast
  have 4: "gd_build_index ex_lib (ex_gd\<lparr>cache_file := Some Corrupt\<rparr>)
       = (Inl UnpicklingError, ex_gd\<lparr>cache_file := Some Corrupt\<rparr>)"
    using g t[where g = "ex_gd\<lparr>cache_file := Some Corrupt\<rparr>"] by blast
  have 5: "gd_build_index ex_lib (ex_gd\<lparr>cache_file := Some Unreadable\<rparr>)
       = (Inl OSError, ex_gd\<lparr>cache_file := Some Unreadable\<rparr>)"
    using g t[where g = "ex_gd\<lparr>cache_file := Some Unreadable\<rparr>"] by blast
  have 6: "gd_load_cache ex_gd = Inr (ex_gd\<lparr>gd_image_features := [], gd_image_metadata := []\<rparr>)"
    using g t[where g = ex_gd] by blast
  from a g nw 1 2 3 4 5 6 show ?thesis by blast
qed

text \<open>
  C5 as stated fails: with a snapshot whose bytes are no pickle, \<^verbatim>\<open>build_index\<close> of
  either engine raises the unpickling error to its caller instead of going on with an
  empty index.
\<close>

theorem load_corrupt_counterexample:
  "fst (app_build_index ex_lib False (ex_app\<lparr>index_file := Some Corrupt\<rparr>)) = Inl UnpicklingError
   \<and> fst (gd_build_index ex_lib (ex_gd\<lparr>cache_file := Some Corrupt\<rparr>)) = Inl UnpicklingError
   \<and> fst (gd_search ex_lib (Ndarray (U8 (flat 10))) (1 / 5) 3 (ex_gd\<lparr>cache_file := Some Corrupt\<rparr>))
       = Inl UnpicklingError"
  by (simp add: app_build_index_def app_load_index_def gd_build_index_def gd_load_cache_def
      gd_search_def ex_app_def ex_gd_def)

section \<open>The indexing loops\<close>

lemma dict_set_fresh: "k \<notin> fst ` set d \<Longrightarrow> dict_set d k v = d @ [(k, v)]"
  by (induction d) auto

lemma index_loop_frame:
  "image_directory (index_loop L ns w) = image_directory w"
  "imread (index_loop L ns w) = imread w"
  "listdir (index_loop L ns w) = listdir w"
  "index_file (index_loop L ns w) = index_file w"
  "writable (index_loop L ns w) = writable w"
  "is_indexed (index_loop L ns w) = is_indexed w"
  by (induction ns arbitrary: w; simp add: Let_def split: sum.splits)+

lemma app_candidates_simps:
  "app_candidates L w [] = []"
  "app_candidates L w (x # ns) =
     (if is_image_name x then os_path_join L (image_directory w) x # app_candidates L w ns
      else app_candidates L w ns)"
  "app_candidates L (w\<lparr>image_features := d\<rparr>) ns = app_candidates L w ns"
  "app_candidates L (w\<lparr>stdout := out\<rparr>) ns = app_candidates L w ns"
  by (simp_all add: app_candidates_def)

lemma index_loop_stdout:
  "stdout (index_loop L ns w) =
     stdout w @ concat (map (\<lambda>p. case preprocess_image L (imread w) p of
                                  Inl e \<Rightarrow> [ErrorProcessing p e] | Inr img \<Rightarrow> [])
                          (app_candidates L w ns))"
  by (induction ns arbitrary: w) (simp_all add: app_candidates_simps Let_def split: sum.splits)

lemma index_loop_features:
  "distinct (app_candidates L w ns) \<Longrightarrow>
   set (app_candidates L w ns) \<inter> fst ` set (image_features w) = {} \<Longrightarrow>
   image_features (index_loop L ns w) =
     image_features w @ concat (map (\<lambda>p. case preprocess_image L (imread w) p of
                                          Inr img \<Rightarrow> [(p, img)] | Inl e \<Rightarrow> [])
                                  (app_candidates L w ns))"
proof (induction ns arbitrary: w)
  case Nil
  then show ?case by (simp add: app_candidates_simps)
next
  case (Cons x ns)
  show ?case
  proof (cases "is_image_name x")
    case False
    with Cons show ?thesis by (simp add: app_candidates_simps)
  next
    case True
    let ?p = "os_path_join L (image_directory w) x"
    from Cons.prems True have d: "distinct (app_candidates L w ns)"
      "?p \<notin> set (app_candidates L w ns)" "?p \<notin> fst ` set (image_features w)"
      "set (app_candidates L w ns) \<inter> fst ` set (image_features w) = {}"
      by (auto simp: app_candidates_simps)
    show ?thesis
    proof (cases "preprocess_image L (imread w) ?p")
      case (Inl e)
      with True d Cons.IH[of "w\<lparr>stdout := stdout w @ [ErrorProcessing ?p e]\<rparr>"]
      show ?thesis by (simp add: app_candidates_simps Let_def)
    next
      case (Inr img)
      let ?w = "w\<lparr>image_features := dict_set (image_features w) ?p img\<rparr>"
      have f: "image_features ?w = image_features w @ [(?p, img)]"
        using d(3) by (simp add: dict_set_fresh)
      have "set (app_candidates L ?w ns) \<inter> fst ` set (image_features ?w) = {}"
        using d f by (auto simp: app_candidates_simps)
      with d(1) Cons.IH[of ?w] f Inr True
      show ?thesis by (simp add: app_candidates_simps Let_def)
    qed
  qed
qed

lemma length_successes:
  "length (concat (map (\<lambda>p. case f p of Inr img \<Rightarrow> [g p img] | Inl e \<Rightarrow> []) ps)) =
     length (filter (\<lambda>p. \<not> isl (f p)) ps)"
  by (induction ps) (auto split: sum.splits)

lemma app_rebuild:
  assumes "listdir w = Inr names" "writable w"
    and "force \<or> (\<not> is_indexed w \<and> index_file w = None)"
    and "distinct (app_candidates L w names)"
  shows "fst (app_build_index L force w) = Inr None"
    and "image_features (snd (app_build_index L force w)) =
           concat (map (\<lambda>p. case preprocess_image L (imread w) p of
                               Inr img \<Rightarrow> [(p, img)] | Inl e \<Rightarrow> [])
                       (app_candidates L w names))"
    and "stdout (snd (app_build_index L force w)) =
           stdout w @ concat (map (\<lambda>p. case preprocess_image L (imread w) p of
                                        Inl e \<Rightarrow> [ErrorProcessing p e] | Inr img \<Rightarrow> [])
                                (app_candidates L w names))"
proof -
  let ?w1 = "w\<lparr>image_features := []\<rparr>"
  let ?w2 = "index_loop L names ?w1"
  have b: "app_build_index L force w =
             (Inr None, ?w2\<lparr>index_file := Some (Pickled (image_features ?w2)), is_indexed := True\<rparr>)"
    using assms(1,2,3)
    by (auto simp: app_build_index_def app_save_index_def Let_def index_loop_frame)
  show "fst (app_build_index L force w) = Inr None" by (simp add: b)
  show "image_features (snd (app_build_index L force w)) =
           concat (map (\<lambda>p. case preprocess_image L (imread w) p of
                               Inr img \<Rightarrow> [(p, img)] | Inl e \<Rightarrow> [])
                       (app_candidates L w names))"
    using assms(4) index_loop_features[of L ?w1 names]
    by (simp add: b app_candidates_simps)
  show "stdout (snd (app_build_index L force w)) =
           stdout w @ concat (map (\<lambda>p. case preprocess_image L (imread w) p of
                                        Inl e \<Rightarrow> [ErrorProcessing p e] | Inr img \<Rightarrow> [])
                                (app_candidates L w names))"
    using index_loop_stdout[of L names ?w1]
    by (simp add: b app_candidates_simps)
qed

lemma download_and_process_frame:
  "download_and_process L (w\<lparr>st_log := out\<rparr>) f = download_and_process L w f"
  "download_and_process L (w\<lparr>gd_image_features := a, gd_image_metadata := b\<rparr>) f =
     download_and_process L w f"
  "download_and_process L (w\<lparr>gd_image_features := a\<rparr>) f = download_and_process L w f"
  "download_and_process L (w\<lparr>gd_image_metadata := b\<rparr>) f = download_and_process L w f"
  by (simp_all add: download_and_process_def)

lemma gd_index_loop_frame:
  "download_image (gd_index_loop L fs w) = download_image w"
  "list_images_in_folder (gd_index_loop L fs w) = list_images_in_folder w"
  "cache_file (gd_index_loop L fs w) = cache_file w"
  "gd_writable (gd_index_loop L fs w) = gd_writable w"
  "gd_is_indexed (gd_index_loop L fs w) = gd_is_indexed w"
  by (induction fs arbitrary: w; simp split: sum.splits)+

lemma gd_index_loop_log:
  "st_log (gd_index_loop L fs w) =
     st_log w @ concat (map (\<lambda>f. case download_and_process L w f of
                                  Inl e \<Rightarrow> [StWarning (file_name f) e] | Inr img \<Rightarrow> [])
                          fs)"
  by (induction fs arbitrary: w) (simp_all add: download_and_process_frame split: sum.splits)

lemma gd_index_loop_features:
  "distinct (map file_id fs) \<Longrightarrow>
   file_id ` set fs \<inter> fst ` set (gd_image_features w) = {} \<Longrightarrow>
   gd_image_features (gd_index_loop L fs w) =
     gd_image_features w @ concat (map (\<lambda>f. case download_and_process L w f of
                                             Inr img \<Rightarrow> [(file_id f, img)] | Inl e \<Rightarrow> [])
                                     fs)"
proof (induction fs arbitrary: w)
  case Nil
  then show ?case by simp
next
  case (Cons f fs)
  from Cons.prems have d: "distinct (map file_id fs)" "file_id f \<notin> file_id ` set fs"
    "file_id f \<notin> fst ` set (gd_image_features w)"
    "file_id ` set fs \<inter> fst ` set (gd_image_features w) = {}"
    by auto
  show ?case
  proof (cases "download_and_process L w f")
    case (Inl e)
    with d Cons.IH[of "w\<lparr>st_log := st_log w @ [StWarning (file_name f) e]\<rparr>"]
    show ?thesis by (simp add: download_and_process_frame)
  next
    case (Inr img)
    let ?w = "w\<lparr>gd_image_features := dict_set (gd_image_features w) (file_id f) img,
               gd_image_metadata :=
                 dict_set (gd_image_metadata w) (file_id f) (file_name f, mimeType f)\<rparr>"
    have f: "gd_image_features ?w = gd_image_features w @ [(file_id f, img)]"
      using d(3) by (simp add: dict_set_fresh)
    have "file_id ` set fs \<inter> fst ` set (gd_image_features ?w) = {}"
      using d f by auto
    with d(1) Cons.IH[of ?w] f Inr
    show ?thesis by (simp add: download_and_process_frame)
  qed
qed

lemma gd_build_from_scratch:
  assumes "cache_file g = None" "list_images_in_folder g = Inr files" "files \<noteq> []"
    and "gd_writable g" "distinct (map file_id files)"
  shows "fst (gd_build_index L g) = Inr None"
    and "gd_image_features (snd (gd_build_index L g)) =
           concat (map (\<lambda>f. case download_and_process L g f of
                               Inr img \<Rightarrow> [(file_id f, img)] | Inl e \<Rightarrow> [])
                       files)"
    and "st_log (snd (gd_build_index L g)) =
           st_log g @ concat (map (\<lambda>f. case download_and_process L g f of
                                        Inl e \<Rightarrow> [StWarning (file_name f) e] | Inr img \<Rightarrow> [])
                                files)
           @ [StSuccessIndexed (length files)]"
proof -
  let ?g1 = "g\<lparr>gd_image_features := [], gd_image_metadata := []\<rparr>"
  let ?g2 = "gd_index_loop L files ?g1"
  have b: "gd_build_index L g =
             (Inr None,
              ?g2\<lparr>cache_file := Some (Pickled \<lparr>cached_features = Some (gd_image_features ?g2),
                                                cached_metadata = Some (gd_image_metadata ?g2)\<rparr>),
                  st_log := st_log ?g2 @ [StSuccessIndexed (length files)],
                  gd_is_indexed := True\<rparr>)"
    using assms(1-4)
    by (simp add: gd_build_index_def gd_load_cache_def gd_save_cache_def dict_contains_def
        Let_def gd_index_loop_frame)
  show "fst (gd_build_index L g) = Inr None" by (simp add: b)
  show "gd_image_features (snd (gd_build_index L g)) =
           concat (map (\<lambda>f. case download_and_process L g f of
                               Inr img \<Rightarrow> [(file_id f, img)] | Inl e \<Rightarrow> [])
                       files)"
    using assms(5) gd_index_loop_features[of files ?g1 L]
    by (simp add: b download_and_process_frame)
  show "st_log (snd (gd_build_index L g)) =
           st_log g @ concat (map (\<lambda>f. case download_and_process L g f of
                                        Inl e \<Rightarrow> [StWarning (file_name f) e] | Inr img \<Rightarrow> [])
                                files)
           @ [StSuccessIndexed (length files)]"
    using gd_index_loop_log[of L files ?g1]
    by (simp add: b download_and_process_frame)
qed

lemma app_build_index_returns:
  assumes "listdir w = Inr names" "writable w"
    and "force \<or> is_indexed w \<or> index_file w = None \<or> index_file w = Some (Pickled d)"
  shows "fst (app_build_index L force w) = Inr None"
  using assms
  by (auto simp: app_build_index_def app_load_index_def app_save_index_def Let_def
      index_loop_frame)

lemma gd_build_index_returns:
  assumes "list_images_in_folder g = Inr files" "gd_writable g"
    and "cache_file g = None \<or> cache_file g = Some (Pickled c)"
  shows "fst (gd_build_index L g) = Inr None"
  using assms
  by (auto simp: gd_build_index_def gd_load_cache_def gd_save_cache_def Let_def
      gd_index_loop_frame)

section \<open>The canonical shape of every stored representation\<close>

lemma cv2_resize_canonical:
  assumes "cv2_resize L src (256, 256) = Inr img"
  shows "canonical_grid img"
proof -
  have v: "unat (x :: 8 word) \<le> 255" for x
    using unsigned_less[of x, where ?'a = nat] by simp
  from assms have "img = map (\<lambda>y. map (\<lambda>x. interp L src x y) [0..<256]) [0..<256]"
    by (auto simp: cv2_resize_def split: if_splits)
  then show ?thesis
    by (auto simp: canonical_grid_def v)
qed

lemma preprocess_image_canonical:
  "preprocess_image L rd p = Inr img \<Longrightarrow> canonical_grid img"
  by (auto simp: preprocess_image_def cv2_resize_canonical split: option.splits sum.splits)

lemma preprocess_image_from_buffer_canonical:
  "preprocess_image_from_buffer L buf = Inr img \<Longrightarrow> canonical_grid img"
  by (auto simp: preprocess_image_from_buffer_def cv2_resize_canonical
      split: option.splits sum.splits if_splits)

lemma download_and_process_canonical:
  "download_and_process L w f = Inr img \<Longrightarrow> canonical_grid img"
  by (auto simp: download_and_process_def preprocess_image_from_buffer_canonical
      split: sum.splits)

lemma dict_set_all:
  "list_all P (map snd d) \<Longrightarrow> P v \<Longrightarrow> list_all P (map snd (dict_set d k v))"
  by (induction d) auto

lemma index_loop_canonical:
  "list_all canonical_grid (map snd (image_features w)) \<Longrightarrow>
   list_all canonical_grid (map snd (image_features (index_loop L ns w)))"
proof (induction ns arbitrary: w)
  case Nil
  then show ?case by simp
next
  case (Cons x ns)
  show ?case
  proof (cases "is_image_name x")
    case False
    with Cons show ?thesis by simp
  next
    case True
    let ?p = "os_path_join L (image_directory w) x"
    show ?thesis
    proof (cases "preprocess_image L (imread w) ?p")
      case (Inl e)
      with True Cons.prems Cons.IH[of "w\<lparr>stdout := stdout w @ [ErrorProcessing ?p e]\<rparr>"]
      show ?thesis by (simp add: Let_def)
    next
      case (Inr img)
      then have "canonical_grid img" by (rule preprocess_image_canonical)
      with Cons.prems have
        "list_all canonical_grid (map snd (dict_set (image_features w) ?p img))"
        by (simp add: dict_set_all)
      with True Inr Cons.IH[of "w\<lparr>image_features := dict_set (image_features w) ?p img\<rparr>"]
      show ?thesis by (simp add: Let_def)
    qed
  qed
qed

lemma gd_index_loop_canonical:
  "list_all canonical_grid (map snd (gd_image_features w)) \<Longrightarrow>
   list_all canonical_grid (map snd (gd_image_features (gd_index_loop L fs w)))"
proof (induction fs arbitrary: w)
  case Nil
  then show ?case by simp
next
  case (Cons f fs)
  show ?case
  proof (cases "download_and_process L w f")
    case (Inl e)
    with Cons.prems Cons.IH[of "w\<lparr>st_log := st_log w @ [StWarning (file_name f) e]\<rparr>"]
    show ?thesis by simp
  next
    case (Inr img)
    then have "canonical_grid img" by (rule download_and_process_canonical)
    with Cons.prems have
      "list_all canonical_grid (map snd (dict_set (gd_image_features w) (file_id f) img))"
      by (simp add: dict_set_all)
    with Inr Cons.IH[of "w\<lparr>gd_image_features := dict_set (gd_image_features w) (file_id f) img,
                          gd_image_metadata :=
                            dict_set (gd_image_metadata w) (file_id f)
                              (file_name f, mimeType f)\<rparr>"]
    show ?thesis by simp
  qed
qed

lemma app_build_index_canonical:
  assumes "app_canonical w"
  shows "app_canonical (snd (app_build_index L force w))"
proof -
  have l: "list_all canonical_grid
             (map snd (image_features (index_loop L ns (w\<lparr>image_features := []\<rparr>))))" for ns
    by (rule index_loop_canonical) simp
  from assms show ?thesis
    by (auto simp: app_canonical_def app_build_index_def app_load_index_def app_save_index_def
        Let_def index_loop_frame l
        split: sum.splits option.splits pickled.splits if_splits)
qed

lemma gd_build_index_canonical:
  assumes "gd_canonical w"
  shows "gd_canonical (snd (gd_build_index L w))"
proof -
  have l: "list_all canonical_grid (map snd (gd_image_features v)) \<Longrightarrow>
           list_all canonical_grid (map snd (gd_image_features (gd_index_loop L fs v)))" for fs v
    by (rule gd_index_loop_canonical)
  from assms show ?thesis
    by (auto simp: gd_canonical_def gd_build_index_def gd_load_cache_def gd_save_cache_def
        Let_def gd_index_loop_frame intro!: l
        split: sum.splits option.splits pickled.splits if_splits)
qed

lemma app_search_canonical:
  assumes "app_canonical w"
  shows "app_canonical (snd (app_search L p t n w))"
proof -
  obtain res w1 where
    b: "(if \<not> is_indexed w then app_build_index L False w else (Inr None, w)) = (res, w1)"
    by (meson surj_pair)
  have "w1 = snd (app_build_index L False w) \<or> w1 = w"
    using b by (auto split: if_splits)
  with assms have "app_canonical w1"
    using app_build_index_canonical by auto
  with b show ?thesis
    by (auto simp: app_search_def app_canonical_def case_prod_beta split: sum.splits)
qed

lemma gd_search_canonical:
  assumes "gd_canonical w"
  shows "gd_canonical (snd (gd_search L qi t n w))"
proof -
  obtain res w1 where
    b: "(if \<not> gd_is_indexed w then gd_build_index L w else (Inr None, w)) = (res, w1)"
    by (meson surj_pair)
  have "w1 = snd (gd_build_index L w) \<or> w1 = w"
    using b by (auto split: if_splits)
  with assms have "gd_canonical w1"
    using gd_build_index_canonical by auto
  with b show ?thesis
    by (auto simp: gd_search_def gd_canonical_def case_prod_beta split: sum.splits)
qed

lemma app_reachable_canonical: "app_reachable L w \<Longrightarrow> app_canonical w"
proof (induction rule: app_reachable.induct)
  case (app_start w dir)
  then show ?case by (simp add: app_canonical_def app_init_def)
next
  case (app_build w force_rebuild)
  then show ?case by (simp add: app_build_index_canonical)
next
  case (app_query w p t n)
  then show ?case by (simp add: app_search_canonical)
next
  case (app_rerun w)
  then show ?case by (simp add: app_canonical_def app_init_def)
next
  case (app_files w l rd b)
  then show ?case by (simp add: app_canonical_def)
qed

lemma gd_reachable_canonical: "gd_reachable L w \<Longrightarrow> gd_canonical w"
proof (induction rule: gd_reachable.induct)
  case (gd_start w)
  then show ?case by (simp add: gd_canonical_def gd_init_def)
next
  case (gd_build w)
  then show ?case by (simp add: gd_build_index_canonical)
next
  case (gd_query w q t n)
  then show ?case by (simp add: gd_search_canonical)
next
  case (gd_rerun w)
  then show ?case by (simp add: gd_canonical_def gd_init_def)
next
  case (gd_files w l d b)
  then show ?case by (simp add: gd_canonical_def)
qed

text \<open>
  C9. Whatever the extractor returns for an image to be stored (read from a path in
  app.py, decoded from a downloaded buffer in searchAPP.py) is a single-channel grid of
  256 rows and 256 columns of unsigned bytes: \<^verbatim>\<open>cv2.imread\<close> and \<^verbatim>\<open>cv2.imdecode\<close> with
  \<^verbatim>\<open>IMREAD_COLOR\<close> give 8-bit arrays. So in every world a run of either script reaches,
  from a fresh engine with no snapshot through any calls of \<^verbatim>\<open>build_index\<close> and
  \<^verbatim>\<open>search\<close>, reruns and changes of the image source, all stored representations, in
  memory and in the snapshot, have that one shape and value range. (A query made from
  a PIL image is never stored, and it keeps the dtype of the image.)
\<close>

theorem stored_representations_canonical:
  "(preprocess_image L rd p = Inr img \<longrightarrow> canonical_grid img)
   \<and> (preprocess_image_from_buffer L buf = Inr img \<longrightarrow> canonical_grid img)
   \<and> (app_reachable L w \<longrightarrow> app_canonical w)
   \<and> (gd_reachable L g \<longrightarrow> gd_canonical g)"
  using preprocess_image_canonical preprocess_image_from_buffer_canonical
    app_reachable_canonical gd_reachable_canonical
  by blast

theorem stored_representations_canonical_witness:
  "preprocess_image ex_lib ex_imread ''ref/a.png'' = Inr (flat 10)
   \<and> preprocess_image_from_buffer ex_lib [20] = Inr (flat 20)
   \<and> canonical_grid (flat 10) \<and> canonical_grid (flat 20)
   \<and> app_reachable ex_lib (snd (app_build_index ex_lib False ex_app))
   \<and> app_canonical (snd (app_build_index ex_lib False ex_app))
   \<and> gd_reachable ex_lib (snd (gd_build_index ex_lib ex_gd))
   \<and> gd_canonical (snd (gd_build_index ex_lib ex_gd))"
proof -
  note t = stored_representations_canonical[where L = ex_lib]
  have 1: "preprocess_image ex_lib ex_imread ''ref/a.png'' = Inr (flat 10)"
    by (simp add: ex_preprocess_image)
  have 2: "preprocess_image_from_buffer ex_lib [20] = Inr (flat 20)"
    by (simp add: ex_preprocess_buffer)
  have 4: "canonical_grid (flat 10)"
    using 1 t[where rd = ex_imread and p = "''ref/a.png''" and img = "flat 10"] by blast
  have 5: "canonical_grid (flat 20)"
    using 2 t[where buf = "[20]" and img = "flat 20"] by blast
  have "index_file ex_app = None" "app_init ''ref'' ex_app = ex_app"
    by (simp_all add: ex_app_def app_init_def)
  then have "app_reachable ex_lib ex_app"
    using app_start[of ex_app ex_lib "''ref''"] by simp
  then have 6: "app_reachable ex_lib (snd (app_build_index ex_lib False ex_app))"
    by (rule app_build)
  have "cache_file ex_gd = None" "gd_init ex_gd = ex_gd"
    by (simp_all add: ex_gd_def gd_init_def)
  then have "gd_reachable ex_lib ex_gd"
    using gd_start[of ex_gd ex_lib] by simp
  then have 7: "gd_reachable ex_lib (snd (gd_build_index ex_lib ex_gd))"
    by (rule gd_build)
  have 8: "app_canonical (snd (app_build_index ex_lib False ex_app))"
    using 6 t[where w = "snd (app_build_index ex_lib False ex_app)"] by blast
  have 9: "gd_canonical (snd (gd_build_index ex_lib ex_gd))"
    using 7 t[where g = "snd (gd_build_index ex_lib ex_gd)"] by blast
  from 1 2 4 5 6 7 8 9 show ?thesis by blast
qed

section \<open>Incremental build and full rebuild\<close>

lemma map_of_dict_set: "map_of (dict_set d k v) = (map_of d)(k \<mapsto> v)"
  by (induction d) (auto simp: fun_eq_iff)

lemma keys_dict_set: "fst ` set (dict_set d k v) = insert k (fst ` set d)"
proof (induction d)
  case Nil
  then show ?case by simp
next
  case (Cons a d)
  then show ?case by (cases a) auto
qed

lemma gd_index_loop_map_of:
  "map_of (gd_image_features (gd_index_loop L fs w)) k =
     (if k \<in> file_id ` set fs then
        (case download_image w k of
           Inl e \<Rightarrow> map_of (gd_image_features w) k
         | Inr b \<Rightarrow>
             (case preprocess_image_from_buffer L b of
                Inl e \<Rightarrow> map_of (gd_image_features w) k
              | Inr img \<Rightarrow> Some img))
      else map_of (gd_image_features w) k)"
proof (induction fs arbitrary: w)
  case Nil
  then show ?case by simp
next
  case (Cons f fs)
  show ?case
  proof (cases "download_and_process L w f")
    case (Inl e)
    then show ?thesis
      by (simp add: Cons.IH) (auto simp: download_and_process_def split: sum.splits)
  next
    case (Inr img)
    then show ?thesis
      by (simp add: Cons.IH map_of_dict_set)
         (auto simp: download_and_process_def map_of_dict_set split: sum.splits)
  qed
qed

lemma gd_build_index_map_of:
  assumes "gd_load_cache g = Inr g1" "list_images_in_folder g = Inr files"
  shows "map_of (gd_image_features (snd (gd_build_index L g))) k =
     (if k \<in> file_id ` set files \<and> \<not> dict_contains (gd_image_metadata g1) k then
        (case download_image g k of
           Inl e \<Rightarrow> map_of (gd_image_features g1) k
         | Inr b \<Rightarrow>
             (case preprocess_image_from_buffer L b of
                Inl e \<Rightarrow> map_of (gd_image_features g1) k
              | Inr img \<Rightarrow> Some img))
      else map_of (gd_image_features g1) k)"
proof -
  let ?new = "filter (\<lambda>f. \<not> dict_contains (gd_image_metadata g1) (file_id f)) files"
  from assms(1) have e: "list_images_in_folder g1 = list_images_in_folder g"
    "download_image g1 = download_image g"
    by (auto simp: gd_load_cache_def split: option.splits pickled.splits)
  have n: "k \<in> file_id ` set ?new \<longleftrightarrow>
           k \<in> file_id ` set files \<and> \<not> dict_contains (gd_image_metadata g1) k"
    by auto
  have l: "map_of (gd_image_features (gd_index_loop L ?new g1)) k =
     (if k \<in> file_id ` set files \<and> \<not> dict_contains (gd_image_metadata g1) k then
        (case download_image g k of
           Inl e \<Rightarrow> map_of (gd_image_features g1) k
         | Inr b \<Rightarrow>
             (case preprocess_image_from_buffer L b of
                Inl e \<Rightarrow> map_of (gd_image_features g1) k
              | Inr img \<Rightarrow> Some img))
      else map_of (gd_image_features g1) k)"
    unfolding gd_index_loop_map_of n e by (rule refl)
  have f: "gd_image_features (snd (gd_build_index L g)) =
             (if ?new = [] then gd_image_features g1
              else gd_image_features (gd_index_loop L ?new g1))"
    using assms e
    by (auto simp: gd_build_index_def gd_save_cache_def Let_def split: sum.splits)
  show ?thesis
  proof (cases "?new = []")
    case True
    then have "k \<notin> file_id ` set ?new" by simp
    with n f True show ?thesis by auto
  next
    case False
    with f l show ?thesis by simp
  qed
qed

lemma gd_incremental_equals_rebuild:
  assumes c: "cache_file g =
                Some (Pickled \<lparr>cached_features = Some cf, cached_metadata = Some cm\<rparr>)"
    and keys: "fst ` set cm = fst ` set cf"
    and files: "list_images_in_folder g = Inr files"
    and sub: "\<forall>(k, img) \<in> set cf.
                map_of (gd_image_features (snd (gd_build_index L (g\<lparr>cache_file := None\<rparr>)))) k
                  = Some img"
  shows "map_of (gd_image_features (snd (gd_build_index L g))) =
         map_of (gd_image_features (snd (gd_build_index L (g\<lparr>cache_file := None\<rparr>))))"
proof
  fix k
  let ?g0 = "g\<lparr>cache_file := None\<rparr>"
  let ?S = "map_of (gd_image_features (snd (gd_build_index L ?g0)))"
  let ?D = "case download_image g k of
              Inl e \<Rightarrow> None
            | Inr b \<Rightarrow> (case preprocess_image_from_buffer L b of
                         Inl e \<Rightarrow> None | Inr img \<Rightarrow> Some img)"
  have l0: "gd_load_cache ?g0 = Inr (?g0\<lparr>gd_image_features := [], gd_image_metadata := []\<rparr>)"
    by (simp add: gd_load_cache_def)
  have S: "?S k = (if k \<in> file_id ` set files then ?D else None)"
    using gd_build_index_map_of[OF l0, of files L k] files
    by (auto simp: dict_contains_def split: sum.splits)
  have l1: "gd_load_cache g = Inr (g\<lparr>gd_image_features := cf, gd_image_metadata := cm\<rparr>)"
    using c by (simp add: gd_load_cache_def)
  have I: "map_of (gd_image_features (snd (gd_build_index L g))) k =
     (if k \<in> file_id ` set files \<and> k \<notin> fst ` set cm then
        (case download_image g k of
           Inl e \<Rightarrow> map_of cf k
         | Inr b \<Rightarrow>
             (case preprocess_image_from_buffer L b of
                Inl e \<Rightarrow> map_of cf k
              | Inr img \<Rightarrow> Some img))
      else map_of cf k)"
    using gd_build_index_map_of[OF l1 files, of L k]
    by (simp add: dict_contains_def cong: sum.case_cong if_cong)
  show "map_of (gd_image_features (snd (gd_build_index L g))) k = ?S k"
  proof (cases "k \<in> fst ` set cf")
    case True
    then obtain img where m: "map_of cf k = Some img"
      by (metis domD dom_map_of_conv_image_fst)
    then have "(k, img) \<in> set cf" by (rule map_of_SomeD)
    with sub have "?S k = Some img" by blast
    with I m True keys show ?thesis by simp
  next
    case False
    then have "map_of cf k = None"
      by (simp add: map_of_eq_None_iff)
    with I S False keys show ?thesis
      by (auto split: sum.splits)
  qed
qed

section \<open>Saving and reloading the snapshot\<close>

lemma download_and_process_cong:
  "download_image w1 = download_image w2 \<Longrightarrow>
   download_and_process L w1 f = download_and_process L w2 f"
  by (simp add: download_and_process_def)

lemma gd_index_loop_metadata_keys:
  "fst ` set (gd_image_metadata (gd_index_loop L fs w)) =
     fst ` set (gd_image_metadata w)
     \<union> {file_id f | f. f \<in> set fs \<and> \<not> isl (download_and_process L w f)}"
proof (induction fs arbitrary: w)
  case Nil
  then show ?case by simp
next
  case (Cons f fs)
  show ?case
  proof (cases "download_and_process L w f")
    case (Inl e)
    then show ?thesis
      by (auto simp: Cons.IH download_and_process_frame)
  next
    case (Inr img)
    then show ?thesis
      by (auto simp: Cons.IH download_and_process_frame keys_dict_set)
  qed
qed

lemma gd_index_loop_all_fail:
  "\<forall>f \<in> set fs. isl (download_and_process L w f) \<Longrightarrow>
   gd_image_features (gd_index_loop L fs w) = gd_image_features w
   \<and> gd_image_metadata (gd_index_loop L fs w) = gd_image_metadata w"
proof (induction fs arbitrary: w)
  case Nil
  then show ?case by simp
next
  case (Cons f fs)
  from Cons.prems obtain e where e: "download_and_process L w f = Inl e"
    by (cases "download_and_process L w f") auto
  let ?w = "w\<lparr>st_log := st_log w @ [StWarning (file_name f) e]\<rparr>"
  from Cons.prems have "\<forall>f \<in> set fs. isl (download_and_process L ?w f)"
    by (simp add: download_and_process_frame)
  from Cons.IH[OF this] e show ?case by simp
qed

lemma gd_load_cache_frame:
  assumes "gd_load_cache g = Inr g1"
  shows "list_images_in_folder g1 = list_images_in_folder g"
    and "download_image g1 = download_image g"
    and "gd_writable g1 = gd_writable g"
    and "cache_file g1 = cache_file g"
  using assms by (auto simp: gd_load_cache_def split: option.splits pickled.splits)

lemma gd_load_cache_same_file:
  assumes "gd_load_cache g = Inr g1" "cache_file h = cache_file g"
  shows "gd_load_cache h =
           Inr (h\<lparr>gd_image_features := gd_image_features g1,
                  gd_image_metadata := gd_image_metadata g1\<rparr>)"
  using assms by (auto simp: gd_load_cache_def split: option.splits pickled.splits)

lemma gd_build_index_unfold:
  assumes "gd_load_cache g = Inr g1" "list_images_in_folder g = Inr files"
  shows "gd_build_index L g =
     (if files = [] then (Inr None, g1\<lparr>st_log := st_log g1 @ [StInfoNoImages]\<rparr>)
      else if filter (\<lambda>f. \<not> dict_contains (gd_image_metadata g1) (file_id f)) files = []
      then (Inr None, g1\<lparr>st_log := st_log g1 @ [StSuccessAllIndexed], gd_is_indexed := True\<rparr>)
      else if gd_writable g
      then (Inr None,
            (gd_index_loop L
               (filter (\<lambda>f. \<not> dict_contains (gd_image_metadata g1) (file_id f)) files) g1)
             \<lparr>cache_file :=
                Some (Pickled
                  \<lparr>cached_features = Some (gd_image_features (gd_index_loop L
                      (filter (\<lambda>f. \<not> dict_contains (gd_image_metadata g1) (file_id f)) files) g1)),
                   cached_metadata = Some (gd_image_metadata (gd_index_loop L
                      (filter (\<lambda>f. \<not> dict_contains (gd_image_metadata g1) (file_id f)) files) g1))\<rparr>),
              st_log := st_log (gd_index_loop L
                  (filter (\<lambda>f. \<not> dict_contains (gd_image_metadata g1) (file_id f)) files) g1)
                @ [StSuccessIndexed (length
                  (filter (\<lambda>f. \<not> dict_contains (gd_image_metadata g1) (file_id f)) files))],
              gd_is_indexed := True\<rparr>)
      else (Inl OSError,
            gd_index_loop L
              (filter (\<lambda>f. \<not> dict_contains (gd_image_metadata g1) (file_id f)) files) g1))"
  using assms gd_load_cache_frame[OF assms(1)]
  by (simp add: gd_build_index_def gd_save_cache_def Let_def gd_index_loop_frame)

lemma gd_rerun:
  assumes ok: "fst (gd_build_index L g) = Inr None"
  shows "fst (gd_build_index L (gd_init (snd (gd_build_index L g)))) = Inr None
     \<and> gd_image_features (snd (gd_build_index L (gd_init (snd (gd_build_index L g)))))
         = gd_image_features (snd (gd_build_index L g))
     \<and> gd_image_metadata (snd (gd_build_index L (gd_init (snd (gd_build_index L g)))))
         = gd_image_metadata (snd (gd_build_index L g))
     \<and> cache_file (snd (gd_build_index L (gd_init (snd (gd_build_index L g)))))
         = cache_file (snd (gd_build_index L g))"
proof -
  from ok obtain g1 where l: "gd_load_cache g = Inr g1"
    by (cases "gd_load_cache g") (auto simp: gd_build_index_def)
  note fr = gd_load_cache_frame[OF l]
  from ok l fr obtain files where fl: "list_images_in_folder g = Inr files"
    by (cases "list_images_in_folder g") (auto simp: gd_build_index_def)
  let ?new = "filter (\<lambda>f. \<not> dict_contains (gd_image_metadata g1) (file_id f)) files"
  note u = gd_build_index_unfold[OF l fl, of L]
  let ?g' = "snd (gd_build_index L g)"
  let ?h = "gd_init ?g'"
  show ?thesis
  proof (cases "files = [] \<or> ?new = []")
    case True
    then have g': "gd_image_features ?g' = gd_image_features g1"
      "gd_image_metadata ?g' = gd_image_metadata g1" "cache_file ?g' = cache_file g"
      "list_images_in_folder ?g' = Inr files"
      using u fr fl by (auto split: if_splits)
    have lh: "gd_load_cache ?h =
                Inr (?h\<lparr>gd_image_features := gd_image_features g1,
                        gd_image_metadata := gd_image_metadata g1\<rparr>)"
      by (rule gd_load_cache_same_file[OF l]) (simp add: gd_init_def g')
    have flh: "list_images_in_folder ?h = Inr files"
      by (simp add: gd_init_def g')
    show ?thesis
      unfolding gd_build_index_unfold[OF lh flh]
      using True g' by (auto simp: gd_init_def)
  next
    case False
    let ?g2 = "gd_index_loop L ?new g1"
    from False ok u have wr: "gd_writable g"
      by (auto split: if_splits)
    with False u have g': "gd_image_features ?g' = gd_image_features ?g2"
      "gd_image_metadata ?g' = gd_image_metadata ?g2"
      "cache_file ?g' = Some (Pickled \<lparr>cached_features = Some (gd_image_features ?g2),
                                        cached_metadata = Some (gd_image_metadata ?g2)\<rparr>)"
      "list_images_in_folder ?g' = Inr files" "gd_writable ?g'"
      "download_image ?g' = download_image g"
      using fr fl by (simp_all add: gd_index_loop_frame)
    have lh: "gd_load_cache ?h =
                Inr (?h\<lparr>gd_image_features := gd_image_features ?g2,
                        gd_image_metadata := gd_image_metadata ?g2\<rparr>)"
      by (simp add: gd_load_cache_def gd_init_def g')
    let ?h1 = "?h\<lparr>gd_image_features := gd_image_features ?g2,
                   gd_image_metadata := gd_image_metadata ?g2\<rparr>"
    have flh: "list_images_in_folder ?h = Inr files" and wh: "gd_writable ?h"
      by (simp_all add: gd_init_def g')
    let ?new' = "filter (\<lambda>f. \<not> dict_contains (gd_image_metadata ?h1) (file_id f)) files"
    have fail: "\<forall>f \<in> set ?new'. isl (download_and_process L ?h1 f)"
    proof
      fix f assume "f \<in> set ?new'"
      then have f: "f \<in> set files" "file_id f \<notin> fst ` set (gd_image_metadata ?g2)"
        by (auto simp: dict_contains_def)
      then have n: "file_id f \<notin> fst ` set (gd_image_metadata g1)"
        and a: "\<forall>f' \<in> set ?new. file_id f' = file_id f
                  \<longrightarrow> isl (download_and_process L g1 f')"
        by (auto simp: gd_index_loop_metadata_keys)
      from f(1) n have "f \<in> set ?new"
        by (simp add: dict_contains_def)
      with a have "isl (download_and_process L g1 f)" by blast
      moreover have "download_image ?h1 = download_image g1"
        by (simp add: gd_init_def g' fr)
      ultimately show "isl (download_and_process L ?h1 f)"
        by (simp add: download_and_process_cong[of ?h1 g1])
    qed
    from gd_index_loop_all_fail[OF fail] have same:
      "gd_image_features (gd_index_loop L ?new' ?h1) = gd_image_features ?g2"
      "gd_image_metadata (gd_index_loop L ?new' ?h1) = gd_image_metadata ?g2"
      by simp_all
    have ch: "cache_file ?h1 = cache_file ?g'"
      by (simp add: gd_init_def)
    show ?thesis
      unfolding gd_build_index_unfold[OF lh flh]
      using False wh same g' ch
      by (simp add: gd_index_loop_frame)
  qed
qed

lemma app_rerun_reloads:
  assumes "fst (app_build_index L True w) = Inr None"
  shows "app_build_index L False (app_init (image_directory w) (snd (app_build_index L True w)))
           = (Inr None, snd (app_build_index L True w))"
proof -
  from assms obtain names where n: "listdir w = Inr names"
    by (cases "listdir w") (auto simp: app_build_index_def)
  let ?w2 = "index_loop L names (w\<lparr>image_features := []\<rparr>)"
  from assms n have wr: "writable w"
    by (auto simp: app_build_index_def app_save_index_def Let_def index_loop_frame
        split: if_splits)
  with n have b: "snd (app_build_index L True w) =
      ?w2\<lparr>index_file := Some (Pickled (image_features ?w2)), is_indexed := True\<rparr>"
    by (simp add: app_build_index_def app_save_index_def Let_def index_loop_frame)
  show ?thesis
    unfolding b
    by (simp add: app_build_index_def app_load_index_def app_init_def index_loop_frame)
qed

text \<open>
  C4. What the save block of \<^verbatim>\<open>build_index\<close> writes, its load block reads back as
  the same index: the same keys in the same order, the same representations and
  (searchAPP.py) the same metadata, whatever engine does the loading. Saving right after
  a load writes a snapshot that loads to the same index again, and leaves the file as
  it is when the file has the form the save block writes. On the whole method: after a
  \<^verbatim>\<open>build_index\<close> that returned (forced, for app.py), a fresh engine's
  \<^verbatim>\<open>build_index\<close> over the same source ends with the same index and leaves the snapshot
  as it was.
\<close>

theorem snapshot_round_trip:
  "(app_save_index w = Inr w' \<and> index_file v = index_file w'
      \<longrightarrow> app_load_index v = Inr (v\<lparr>image_features := image_features w\<rparr>))
   \<and> (app_load_index v = Inr v' \<and> writable v \<longrightarrow> app_save_index v' = Inr v')
   \<and> (fst (app_build_index L True w) = Inr None
      \<longrightarrow> app_build_index L False (app_init (image_directory w) (snd (app_build_index L True w)))
            = (Inr None, snd (app_build_index L True w)))
   \<and> (gd_save_cache g = Inr g' \<and> cache_file h = cache_file g'
      \<longrightarrow> gd_load_cache h =
            Inr (h\<lparr>gd_image_features := gd_image_features g,
                   gd_image_metadata := gd_image_metadata g\<rparr>))
   \<and> (gd_load_cache h = Inr h' \<and> gd_writable h \<and> gd_save_cache h' = Inr h''
      \<longrightarrow> gd_load_cache h'' = Inr h'')
   \<and> (gd_load_cache h = Inr h' \<and> gd_writable h
      \<longrightarrow> gd_save_cache h' \<noteq> Inl OSError)
   \<and> (gd_load_cache h = Inr h' \<and> gd_writable h
       \<and> cache_file h = Some (Pickled \<lparr>cached_features = Some cf, cached_metadata = Some cm\<rparr>)
      \<longrightarrow> gd_save_cache h' = Inr h')
   \<and> (fst (gd_build_index L g) = Inr None
      \<longrightarrow> fst (gd_build_index L (gd_init (snd (gd_build_index L g)))) = Inr None
        \<and> gd_image_features (snd (gd_build_index L (gd_init (snd (gd_build_index L g)))))
            = gd_image_features (snd (gd_build_index L g))
        \<and> gd_image_metadata (snd (gd_build_index L (gd_init (snd (gd_build_index L g)))))
            = gd_image_metadata (snd (gd_build_index L g))
        \<and> cache_file (snd (gd_build_index L (gd_init (snd (gd_build_index L g)))))
            = cache_file (snd (gd_build_index L g)))"
proof (intro conjI impI; (elim conjE)?)
  assume "app_save_index w = Inr w'" "index_file v = index_file w'"
  then show "app_load_index v = Inr (v\<lparr>image_features := image_features w\<rparr>)"
    by (auto simp: app_save_index_def app_load_index_def split: if_splits)
next
  assume "app_load_index v = Inr v'" "writable v"
  then show "app_save_index v' = Inr v'"
    by (auto simp: app_save_index_def app_load_index_def split: option.splits pickled.splits)
next
  assume "fst (app_build_index L True w) = Inr None"
  then show "app_build_index L False (app_init (image_directory w) (snd (app_build_index L True w)))
            = (Inr None, snd (app_build_index L True w))"
    by (rule app_rerun_reloads)
next
  assume "gd_save_cache g = Inr g'" "cache_file h = cache_file g'"
  then show "gd_load_cache h =
            Inr (h\<lparr>gd_image_features := gd_image_features g,
                   gd_image_metadata := gd_image_metadata g\<rparr>)"
    by (auto simp: gd_save_cache_def gd_load_cache_def split: if_splits)
next
  assume "gd_load_cache h = Inr h'" "gd_writable h" "gd_save_cache h' = Inr h''"
  then show "gd_load_cache h'' = Inr h''"
    by (auto simp: gd_save_cache_def gd_load_cache_def split: if_splits)
next
  assume "gd_load_cache h = Inr h'" "gd_writable h"
  then show "gd_save_cache h' \<noteq> Inl OSError"
    using gd_load_cache_frame(3)[of h h'] by (simp add: gd_save_cache_def)
next
  assume "gd_load_cache h = Inr h'" "gd_writable h"
    "cache_file h = Some (Pickled \<lparr>cached_features = Some cf, cached_metadata = Some cm\<rparr>)"
  then show "gd_save_cache h' = Inr h'"
    by (auto simp: gd_save_cache_def gd_load_cache_def)
next
  assume a: "fst (gd_build_index L g) = Inr None"
  show "fst (gd_build_index L (gd_init (snd (gd_build_index L g)))) = Inr None"
    "gd_image_features (snd (gd_build_index L (gd_init (snd (gd_build_index L g)))))
            = gd_image_features (snd (gd_build_index L g))"
    "gd_image_metadata (snd (gd_build_index L (gd_init (snd (gd_build_index L g)))))
            = gd_image_metadata (snd (gd_build_index L g))"
    "cache_file (snd (gd_build_index L (gd_init (snd (gd_build_index L g)))))
            = cache_file (snd (gd_build_index L g))"
    using gd_rerun[OF a] by simp_all
qed

theorem snapshot_round_trip_witness:
  "app_save_index (ex_app\<lparr>image_features := ex_app_features\<rparr>)
     = Inr (ex_app\<lparr>image_features := ex_app_features,
                  index_file := Some (Pickled ex_app_features)\<rparr>)
   \<and> app_load_index (ex_app\<lparr>index_file := Some (Pickled ex_app_features)\<rparr>)
     = Inr (ex_app\<lparr>index_file := Some (Pickled ex_app_features),
                  image_features := ex_app_features\<rparr>)
   \<and> writable (ex_app\<lparr>index_file := Some (Pickled ex_app_features)\<rparr>)
   \<and> app_save_index (ex_app\<lparr>index_file := Some (Pickled ex_app_features),
                           image_features := ex_app_features\<rparr>)
     = Inr (ex_app\<lparr>index_file := Some (Pickled ex_app_features),
                  image_features := ex_app_features\<rparr>)
   \<and> fst (app_build_index ex_lib True ex_app) = Inr None
   \<and> app_build_index ex_lib False
        (app_init (image_directory ex_app) (snd (app_build_index ex_lib True ex_app)))
     = (Inr None, snd (app_build_index ex_lib True ex_app))
   \<and> gd_save_cache (ex_gd\<lparr>gd_image_features := ex_features, gd_image_metadata := ex_metadata\<rparr>)
     = Inr (ex_gd\<lparr>gd_image_features := ex_features, gd_image_metadata := ex_metadata,
                 cache_file := Some (Pickled \<lparr>cached_features = Some ex_features,
                                              cached_metadata = Some ex_metadata\<rparr>)\<rparr>)
   \<and> gd_load_cache (ex_gd\<lparr>cache_file := Some (Pickled \<lparr>cached_features = Some ex_features,
                                                       cached_metadata = Some ex_metadata\<rparr>)\<rparr>)
     = Inr (ex_gd\<lparr>cache_file := Some (Pickled \<lparr>cached_features = Some ex_features,
                                              cached_metadata = Some ex_metadata\<rparr>),
                 gd_image_features := ex_features, gd_image_metadata := ex_metadata\<rparr>)
   \<and> gd_writable (ex_gd\<lparr>cache_file := Some (Pickled \<lparr>cached_features = Some ex_features,
                                                     cached_metadata = Some ex_metadata\<rparr>)\<rparr>)
   \<and> gd_save_cache (ex_gd\<lparr>cache_file := Some (Pickled \<lparr>cached_features = Some ex_features,
                                                       cached_metadata = Some ex_metadata\<rparr>),
                          gd_image_features := ex_features, gd_image_metadata := ex_metadata\<rparr>)
     = Inr (ex_gd\<lparr>cache_file := Some (Pickled \<lparr>cached_features = Some ex_features,
                                              cached_metadata = Some ex_metadata\<rparr>),
                 gd_image_features := ex_features, gd_image_metadata := ex_metadata\<rparr>)
   \<and> fst (gd_build_index ex_lib ex_gd) = Inr None
   \<and> gd_image_features (snd (gd_build_index ex_lib (gd_init (snd (gd_build_index ex_lib ex_gd)))))
     = gd_image_features (snd (gd_build_index ex_lib ex_gd))
   \<and> cache_file (snd (gd_build_index ex_lib (gd_init (snd (gd_build_index ex_lib ex_gd)))))
     = cache_file (snd (gd_build_index ex_lib ex_gd))"
proof -
  let ?w = "ex_app\<lparr>image_features := ex_app_features\<rparr>"
  let ?w' = "ex_app\<lparr>image_features := ex_app_features,
                     index_file := Some (Pickled ex_app_features)\<rparr>"
  let ?v = "ex_app\<lparr>index_file := Some (Pickled ex_app_features)\<rparr>"
  let ?v' = "ex_app\<lparr>index_file := Some (Pickled ex_app_features),
                     image_features := ex_app_features\<rparr>"
  let ?c = "Some (Pickled \<lparr>cached_features = Some ex_features,
                            cached_metadata = Some ex_metadata\<rparr>)"
  let ?g = "ex_gd\<lparr>gd_image_features := ex_features, gd_image_metadata := ex_metadata\<rparr>"
  let ?g' = "ex_gd\<lparr>gd_image_features := ex_features, gd_image_metadata := ex_metadata,
                   cache_file := ?c\<rparr>"
  let ?h = "ex_gd\<lparr>cache_file := ?c\<rparr>"
  let ?h' = "ex_gd\<lparr>cache_file := ?c, gd_image_features := ex_features,
                   gd_image_metadata := ex_metadata\<rparr>"
  note t = snapshot_round_trip[where L = ex_lib]
  have 1: "app_save_index ?w = Inr ?w'"
    by (simp add: app_save_index_def ex_app_def)
  have "index_file ?v = index_file ?w'" by simp
  with 1 t[where w = ?w and w' = ?w' and v = ?v]
  have "app_load_index ?v = Inr (?v\<lparr>image_features := image_features ?w\<rparr>)"
    by blast
  then have 2: "app_load_index ?v = Inr ?v'" by simp
  have 3: "writable ?v" by (simp add: ex_app_def)
  have 4: "app_save_index ?v' = Inr ?v'"
    using 2 3 t[where v = ?v and v' = ?v'] by blast
  have 5: "fst (app_build_index ex_lib True ex_app) = Inr None"
    by (simp add: ex_app_build)
  have 6: "app_build_index ex_lib False
        (app_init (image_directory ex_app) (snd (app_build_index ex_lib True ex_app)))
     = (Inr None, snd (app_build_index ex_lib True ex_app))"
    using 5 t[where w = ex_app] by blast
  have 7: "gd_save_cache ?g = Inr ?g'"
    by (simp add: gd_save_cache_def ex_gd_def)
  have "cache_file ?h = cache_file ?g'" by simp
  with 7 t[where g = ?g and g' = ?g' and h = ?h]
  have "gd_load_cache ?h =
          Inr (?h\<lparr>gd_image_features := gd_image_features ?g,
                  gd_image_metadata := gd_image_metadata ?g\<rparr>)"
    by blast
  then have 8: "gd_load_cache ?h = Inr ?h'" by simp
  have 9: "gd_writable ?h" "cache_file ?h = ?c"
    by (simp_all add: ex_gd_def)
  have 10: "gd_save_cache ?h' = Inr ?h'"
    using 8 9 t[where h = ?h and h' = ?h' and cf = ex_features and cm = ex_metadata]
    by blast
  have 11: "fst (gd_build_index ex_lib ex_gd) = Inr None"
    by (simp add: ex_gd_build)
  have 12: "gd_image_features (snd (gd_build_index ex_lib (gd_init (snd (gd_build_index ex_lib ex_gd)))))
     = gd_image_features (snd (gd_build_index ex_lib ex_gd))"
    "cache_file (snd (gd_build_index ex_lib (gd_init (snd (gd_build_index ex_lib ex_gd)))))
     = cache_file (snd (gd_build_index ex_lib ex_gd))"
    using 11 t[where g = ex_gd] by blast+
  from 1 2 3 4 5 6 7 8 9(1) 10 11 12 show ?thesis by blast
qed

section \<open>Incremental build and full rebuild: features and metadata\<close>

lemma find_snoc:
  "find P (xs @ [x]) =
     (case find P xs of Some y \<Rightarrow> Some y | None \<Rightarrow> if P x then Some x else None)"
  by (induction xs) auto

lemma find_SomeD: "find P xs = Some x \<Longrightarrow> P x \<and> x \<in> set xs"
  by (induction xs) (auto split: if_splits)

lemma find_rev_filter_id:
  "find (\<lambda>f. file_id f = k) (rev (filter (\<lambda>f. R (file_id f)) fs)) =
     (if R k then find (\<lambda>f. file_id f = k) (rev fs) else None)"
  by (induction fs) (auto simp: find_snoc split: option.splits)

lemma gd_index_loop_metadata_map_of:
  "map_of (gd_image_metadata (gd_index_loop L fs w)) k =
     (case find (\<lambda>f. file_id f = k) (rev fs) of
        None \<Rightarrow> map_of (gd_image_metadata w) k
      | Some f \<Rightarrow>
          (case download_image w k of
             Inl e \<Rightarrow> map_of (gd_image_metadata w) k
           | Inr b \<Rightarrow>
               (case preprocess_image_from_buffer L b of
                  Inl e \<Rightarrow> map_of (gd_image_metadata w) k
                | Inr img \<Rightarrow> Some (file_name f, mimeType f))))"
proof (induction fs arbitrary: w)
  case Nil
  then show ?case by simp
next
  case (Cons f fs)
  show ?case
  proof (cases "download_and_process L w f")
    case (Inl e)
    then show ?thesis
      by (simp add: Cons.IH find_snoc)
         (auto simp: download_and_process_def split: sum.splits option.splits)
  next
    case (Inr img)
    then show ?thesis
      by (simp add: Cons.IH find_snoc map_of_dict_set)
         (auto simp: download_and_process_def map_of_dict_set
            split: sum.splits option.splits dest: find_SomeD)
  qed
qed

lemma gd_build_index_loop_result:
  assumes "gd_load_cache g = Inr g1" "list_images_in_folder g = Inr files"
  shows "gd_image_features (snd (gd_build_index L g)) =
           gd_image_features (gd_index_loop L
             (filter (\<lambda>f. \<not> dict_contains (gd_image_metadata g1) (file_id f)) files) g1)"
    and "gd_image_metadata (snd (gd_build_index L g)) =
           gd_image_metadata (gd_index_loop L
             (filter (\<lambda>f. \<not> dict_contains (gd_image_metadata g1) (file_id f)) files) g1)"
  by (auto simp: gd_build_index_unfold[OF assms])

lemma gd_build_index_metadata_map_of:
  assumes "gd_load_cache g = Inr g1" "list_images_in_folder g = Inr files"
  shows "map_of (gd_image_metadata (snd (gd_build_index L g))) k =
     (if dict_contains (gd_image_metadata g1) k then map_of (gd_image_metadata g1) k
      else
        (case find (\<lambda>f. file_id f = k) (rev files) of
           None \<Rightarrow> map_of (gd_image_metadata g1) k
         | Some f \<Rightarrow>
             (case download_image g k of
                Inl e \<Rightarrow> map_of (gd_image_metadata g1) k
              | Inr b \<Rightarrow>
                  (case preprocess_image_from_buffer L b of
                     Inl e \<Rightarrow> map_of (gd_image_metadata g1) k
                   | Inr img \<Rightarrow> Some (file_name f, mimeType f)))))"
  unfolding gd_build_index_loop_result(2)[OF assms] gd_index_loop_metadata_map_of
    find_rev_filter_id[of k "\<lambda>i. \<not> dict_contains (gd_image_metadata g1) i"]
    gd_load_cache_frame(2)[OF assms(1)]
  by simp

lemma gd_incremental_metadata_equals_rebuild:
  assumes c: "cache_file g =
                Some (Pickled \<lparr>cached_features = Some cf, cached_metadata = Some cm\<rparr>)"
    and files: "list_images_in_folder g = Inr files"
    and sub: "\<forall>(k, m) \<in> set cm.
                map_of (gd_image_metadata (snd (gd_build_index L (g\<lparr>cache_file := None\<rparr>)))) k
                  = Some m"
  shows "map_of (gd_image_metadata (snd (gd_build_index L g))) =
         map_of (gd_image_metadata (snd (gd_build_index L (g\<lparr>cache_file := None\<rparr>))))"
proof
  fix k
  let ?g0 = "g\<lparr>cache_file := None\<rparr>"
  let ?S = "map_of (gd_image_metadata (snd (gd_build_index L ?g0)))"
  let ?N = "case find (\<lambda>f. file_id f = k) (rev files) of
              None \<Rightarrow> None
            | Some f \<Rightarrow>
                (case download_image g k of
                   Inl e \<Rightarrow> None
                 | Inr b \<Rightarrow>
                     (case preprocess_image_from_buffer L b of
                        Inl e \<Rightarrow> None
                      | Inr img \<Rightarrow> Some (file_name f, mimeType f)))"
  have l0: "gd_load_cache ?g0 = Inr (?g0\<lparr>gd_image_features := [], gd_image_metadata := []\<rparr>)"
    by (simp add: gd_load_cache_def)
  have f0: "list_images_in_folder ?g0 = Inr files"
    using files by simp
  have S: "?S k = ?N"
    using gd_build_index_metadata_map_of[OF l0 f0, of L k]
    by (simp add: dict_contains_def cong: option.case_cong sum.case_cong)
  have l1: "gd_load_cache g = Inr (g\<lparr>gd_image_features := cf, gd_image_metadata := cm\<rparr>)"
    using c by (simp add: gd_load_cache_def)
  have I: "map_of (gd_image_metadata (snd (gd_build_index L g))) k =
             (if k \<in> fst ` set cm then map_of cm k
              else case find (\<lambda>f. file_id f = k) (rev files) of
                     None \<Rightarrow> map_of cm k
                   | Some f \<Rightarrow>
                       (case download_image g k of
                          Inl e \<Rightarrow> map_of cm k
                        | Inr b \<Rightarrow>
                            (case preprocess_image_from_buffer L b of
                               Inl e \<Rightarrow> map_of cm k
                             | Inr img \<Rightarrow> Some (file_name f, mimeType f))))"
    using gd_build_index_metadata_map_of[OF l1 files, of L k]
    by (simp add: dict_contains_def cong: option.case_cong sum.case_cong if_cong)
  show "map_of (gd_image_metadata (snd (gd_build_index L g))) k = ?S k"
  proof (cases "k \<in> fst ` set cm")
    case True
    then obtain m where m: "map_of cm k = Some m"
      by (metis domD dom_map_of_conv_image_fst)
    then have "(k, m) \<in> set cm" by (rule map_of_SomeD)
    with sub have "?S k = Some m" by blast
    with I m True show ?thesis by simp
  next
    case False
    then have "map_of cm k = None"
      by (simp add: map_of_eq_None_iff)
    with I S False show ?thesis
      by (simp cong: option.case_cong sum.case_cong)
  qed
qed

text \<open>
  C3, as the code has it. app.py: on an engine already indexed the non-forced build does
  nothing. On an engine not yet indexed, with no snapshot the forced and the non-forced
  build are the same computation, and with a snapshot the non-forced build processes
  nothing and takes the snapshot's mapping as it is. searchAPP.py (which has no forced
  build: the full rebuild is the build with the cache file removed): the incremental
  build ends with the same features mapping and the same metadata mapping as the full
  rebuild when the cached features and metadata have the same keys and every cached
  feature entry and every cached metadata entry is one the full rebuild produces too.
\<close>

theorem incremental_and_full_rebuild:
  "(is_indexed w \<longrightarrow> app_build_index L False w = (Inr None, w))
   \<and> (\<not> is_indexed w \<and> index_file w = None
      \<longrightarrow> app_build_index L False w = app_build_index L True w)
   \<and> (\<not> is_indexed w \<and> index_file w = Some (Pickled d)
      \<longrightarrow> image_features (snd (app_build_index L False w)) = d)
   \<and> (cache_file g = Some (Pickled \<lparr>cached_features = Some cf, cached_metadata = Some cm\<rparr>)
       \<and> fst ` set cm = fst ` set cf
       \<and> list_images_in_folder g = Inr files
       \<and> (\<forall>(k, img) \<in> set cf.
             map_of (gd_image_features (snd (gd_build_index L (g\<lparr>cache_file := None\<rparr>)))) k
               = Some img)
       \<and> (\<forall>(k, m) \<in> set cm.
             map_of (gd_image_metadata (snd (gd_build_index L (g\<lparr>cache_file := None\<rparr>)))) k
               = Some m)
      \<longrightarrow> map_of (gd_image_features (snd (gd_build_index L g))) =
           map_of (gd_image_features (snd (gd_build_index L (g\<lparr>cache_file := None\<rparr>))))
        \<and> map_of (gd_image_metadata (snd (gd_build_index L g))) =
           map_of (gd_image_metadata (snd (gd_build_index L (g\<lparr>cache_file := None\<rparr>)))))"
proof (intro conjI impI; (elim conjE)?)
  assume "is_indexed w"
  then show "app_build_index L False w = (Inr None, w)"
    by (simp add: app_build_index_def)
next
  assume "\<not> is_indexed w" "index_file w = None"
  then show "app_build_index L False w = app_build_index L True w"
    by (simp add: app_build_index_def)
next
  assume "\<not> is_indexed w" "index_file w = Some (Pickled d)"
  then show "image_features (snd (app_build_index L False w)) = d"
    by (simp add: app_build_index_def app_load_index_def)
next
  assume "cache_file g = Some (Pickled \<lparr>cached_features = Some cf, cached_metadata = Some cm\<rparr>)"
    "fst ` set cm = fst ` set cf" "list_images_in_folder g = Inr files"
    "\<forall>(k, img) \<in> set cf.
       map_of (gd_image_features (snd (gd_build_index L (g\<lparr>cache_file := None\<rparr>)))) k = Some img"
  then show "map_of (gd_image_features (snd (gd_build_index L g))) =
           map_of (gd_image_features (snd (gd_build_index L (g\<lparr>cache_file := None\<rparr>))))"
    by (rule gd_incremental_equals_rebuild)
next
  assume "cache_file g = Some (Pickled \<lparr>cached_features = Some cf, cached_metadata = Some cm\<rparr>)"
    "list_images_in_folder g = Inr files"
    "\<forall>(k, m) \<in> set cm.
       map_of (gd_image_metadata (snd (gd_build_index L (g\<lparr>cache_file := None\<rparr>)))) k = Some m"
  then show "map_of (gd_image_metadata (snd (gd_build_index L g))) =
           map_of (gd_image_metadata (snd (gd_build_index L (g\<lparr>cache_file := None\<rparr>))))"
    by (rule gd_incremental_metadata_equals_rebuild)
qed

theorem incremental_and_full_rebuild_witness:
  "is_indexed ex_app_indexed
   \<and> app_build_index ex_lib False ex_app_indexed = (Inr None, ex_app_indexed)
   \<and> \<not> is_indexed ex_app \<and> index_file ex_app = None
   \<and> app_build_index ex_lib False ex_app = app_build_index ex_lib True ex_app
   \<and> \<not> is_indexed (ex_app\<lparr>index_file := Some (Pickled ex_app_features)\<rparr>)
   \<and> image_features
        (snd (app_build_index ex_lib False (ex_app\<lparr>index_file := Some (Pickled ex_app_features)\<rparr>)))
       = ex_app_features
   \<and> list_images_in_folder
        (ex_gd\<lparr>cache_file :=
           Some (Pickled \<lparr>cached_features = Some [(''id1'', flat 10)],
                          cached_metadata = Some [(''id1'', (''one.png'', ''image/png''))]\<rparr>)\<rparr>)
       = Inr ex_files
   \<and> map_of (gd_image_features (snd (gd_build_index ex_lib
        (ex_gd\<lparr>cache_file :=
           Some (Pickled \<lparr>cached_features = Some [(''id1'', flat 10)],
                          cached_metadata = Some [(''id1'', (''one.png'', ''image/png''))]\<rparr>)\<rparr>))))
       = map_of (gd_image_features (snd (gd_build_index ex_lib ex_gd)))
   \<and> map_of (gd_image_metadata (snd (gd_build_index ex_lib
        (ex_gd\<lparr>cache_file :=
           Some (Pickled \<lparr>cached_features = Some [(''id1'', flat 10)],
                          cached_metadata = Some [(''id1'', (''one.png'', ''image/png''))]\<rparr>)\<rparr>))))
       = map_of (gd_image_metadata (snd (gd_build_index ex_lib ex_gd)))"
proof -
  let ?cf = "[(''id1'', flat 10)]" and ?cm = "[(''id1'', (''one.png'', ''image/png''))]"
  let ?G = "ex_gd\<lparr>cache_file :=
              Some (Pickled \<lparr>cached_features = Some ?cf, cached_metadata = Some ?cm\<rparr>)\<rparr>"
  let ?W = "ex_app\<lparr>index_file := Some (Pickled ex_app_features)\<rparr>"
  note t = incremental_and_full_rebuild[where L = ex_lib]
  have a: "\<not> is_indexed ex_app" "index_file ex_app = None"
    "\<not> is_indexed ?W" "index_file ?W = Some (Pickled ex_app_features)"
    "is_indexed ex_app_indexed"
    by (simp_all add: ex_app_def ex_app_indexed_def)
  have 0: "app_build_index ex_lib False ex_app_indexed = (Inr None, ex_app_indexed)"
    by (rule t[where w = ex_app_indexed, THEN conjunct1, rule_format]) (rule a(5))
  have 1: "app_build_index ex_lib False ex_app = app_build_index ex_lib True ex_app"
    by (rule t[where w = ex_app, THEN conjunct2, THEN conjunct1, rule_format])
       (intro conjI a(1,2))
  have 2: "image_features (snd (app_build_index ex_lib False ?W)) = ex_app_features"
    by (rule t[where w = ?W and d = ex_app_features,
          THEN conjunct2, THEN conjunct2, THEN conjunct1, rule_format])
       (intro conjI a(3,4))
  have g0: "?G\<lparr>cache_file := None\<rparr> = ex_gd"
    by (simp add: ex_gd_def)
  have g: "cache_file ?G =
             Some (Pickled \<lparr>cached_features = Some ?cf, cached_metadata = Some ?cm\<rparr>)"
    "fst ` set ?cm = fst ` set ?cf" "list_images_in_folder ?G = Inr ex_files"
    by (simp_all add: ex_gd_def)
  have s: "\<forall>(k, img) \<in> set ?cf.
             map_of (gd_image_features (snd (gd_build_index ex_lib (?G\<lparr>cache_file := None\<rparr>)))) k
               = Some img"
    unfolding g0 by (simp add: ex_gd_build ex_features_def)
  have sm: "\<forall>(k, m) \<in> set ?cm.
             map_of (gd_image_metadata (snd (gd_build_index ex_lib (?G\<lparr>cache_file := None\<rparr>)))) k
               = Some m"
    unfolding g0 by (simp add: ex_gd_build ex_metadata_def)
  have "map_of (gd_image_features (snd (gd_build_index ex_lib ?G))) =
          map_of (gd_image_features (snd (gd_build_index ex_lib (?G\<lparr>cache_file := None\<rparr>))))
      \<and> map_of (gd_image_metadata (snd (gd_build_index ex_lib ?G))) =
          map_of (gd_image_metadata (snd (gd_build_index ex_lib (?G\<lparr>cache_file := None\<rparr>))))"
    by (rule t[where g = ?G and cf = ?cf and cm = ?cm and files = ex_files,
          THEN conjunct2, THEN conjunct2, THEN conjunct2, rule_format])
       (intro conjI g s sm)
  then have 3: "map_of (gd_image_features (snd (gd_build_index ex_lib ?G))) =
        map_of (gd_image_features (snd (gd_build_index ex_lib ex_gd)))"
    and 4: "map_of (gd_image_metadata (snd (gd_build_index ex_lib ?G))) =
        map_of (gd_image_metadata (snd (gd_build_index ex_lib ex_gd)))"
    unfolding g0 by simp_all
  from a(1-3,5) 0 1 2 g(3) 3 4 show ?thesis by blast
qed

text \<open>
  C3 as stated fails. app.py: the directory held no image when the snapshot was written
  and holds two now; the forced rebuild indexes both, the non-forced build of a fresh
  engine loads the empty snapshot and stops. searchAPP.py: the cache holds an entry
  \<open>id9\<close> whose file has left the folder; the incremental build keeps it, a build
  without the cache file does not have it.
\<close>

theorem incremental_and_full_rebuild_counterexample:
  "image_features (snd (app_build_index ex_lib True (ex_app\<lparr>index_file := Some (Pickled [])\<rparr>)))
     = ex_app_features
   \<and> image_features (snd (app_build_index ex_lib False (ex_app\<lparr>index_file := Some (Pickled [])\<rparr>)))
     = []
   \<and> map_of (image_features
        (snd (app_build_index ex_lib True (ex_app\<lparr>index_file := Some (Pickled [])\<rparr>))))
     \<noteq> map_of (image_features
        (snd (app_build_index ex_lib False (ex_app\<lparr>index_file := Some (Pickled [])\<rparr>))))
   \<and> map_of (gd_image_features (snd (gd_build_index ex_lib
        (ex_gd\<lparr>cache_file :=
           Some (Pickled \<lparr>cached_features = Some [(''id9'', flat 20)],
                          cached_metadata = Some [(''id9'', (''gone.png'', ''image/png''))]\<rparr>)\<rparr>))))
        ''id9'' = Some (flat 20)
   \<and> map_of (gd_image_features (snd (gd_build_index ex_lib ex_gd))) ''id9'' = None"
proof -
  let ?W = "ex_app\<lparr>index_file := Some (Pickled [])\<rparr>"
  have 1: "image_features (snd (app_build_index ex_lib True ?W)) = ex_app_features"
    by (simp add: app_build_index_def app_save_index_def ex_app_def ex_app_features_def
        is_image_name_ex ex_preprocess_image ex_os_path_join Let_def)
  have 2: "image_features (snd (app_build_index ex_lib False ?W)) = []"
    by (simp add: app_build_index_def app_load_index_def ex_app_def)
  have "map_of ex_app_features ''ref/a.png'' \<noteq> map_of [] ''ref/a.png''"
    by (simp add: ex_app_features_def)
  then have 3: "map_of (image_features (snd (app_build_index ex_lib True ?W)))
     \<noteq> map_of (image_features (snd (app_build_index ex_lib False ?W)))"
    unfolding 1 2 by metis
  have 4: "map_of (gd_image_features (snd (gd_build_index ex_lib
        (ex_gd\<lparr>cache_file :=
           Some (Pickled \<lparr>cached_features = Some [(''id9'', flat 20)],
                          cached_metadata = Some [(''id9'', (''gone.png'', ''image/png''))]\<rparr>)\<rparr>))))
        ''id9'' = Some (flat 20)"
    by (simp add: gd_build_index_def gd_load_cache_def gd_save_cache_def ex_gd_def ex_files_def
        ex_download_def dict_contains_def ex_preprocess_buffer download_and_process_def Let_def)
  have 5: "map_of (gd_image_features (snd (gd_build_index ex_lib ex_gd))) ''id9'' = None"
    by (simp add: ex_gd_build ex_features_def)
  from 1 2 3 4 5 show ?thesis by blast
qed

section \<open>Errors of single items\<close>

lemma gd_incremental_features:
  assumes l: "gd_load_cache g = Inr g1" and fl: "list_images_in_folder g = Inr files"
    and d: "distinct (map file_id files)"
    and k: "fst ` set (gd_image_features g1) \<subseteq> fst ` set (gd_image_metadata g1)"
  shows "gd_image_features (snd (gd_build_index L g)) =
          gd_image_features g1
          @ concat (map (\<lambda>f. case download_and_process L g f of
                                Inr img \<Rightarrow> [(file_id f, img)] | Inl e \<Rightarrow> [])
                        (filter (\<lambda>f. \<not> dict_contains (gd_image_metadata g1) (file_id f))
                           files))"
proof -
  let ?new = "filter (\<lambda>f. \<not> dict_contains (gd_image_metadata g1) (file_id f)) files"
  have dn: "distinct (map file_id ?new)"
    using d by (simp add: distinct_map_filter)
  have fresh: "file_id ` set ?new \<inter> fst ` set (gd_image_features g1) = {}"
    using k by (auto simp: dict_contains_def)
  have dp: "download_and_process L g1 f = download_and_process L g f" for f
    using gd_load_cache_frame(2)[OF l] by (rule download_and_process_cong)
  have lp: "gd_image_features (gd_index_loop L ?new g1) =
          gd_image_features g1
          @ concat (map (\<lambda>f. case download_and_process L g f of
                                Inr img \<Rightarrow> [(file_id f, img)] | Inl e \<Rightarrow> [])
                        ?new)"
    using gd_index_loop_features[OF dn fresh, of L] by (simp add: dp)
  show ?thesis
  proof (cases "?new = []")
    case True
    then show ?thesis
      by (simp add: gd_build_index_unfold[OF l fl])
  next
    case False
    then have "files \<noteq> []" by auto
    with False lp show ?thesis
      by (simp add: gd_build_index_unfold[OF l fl])
  qed
qed

text \<open>
  C2. An item that fails inside a loop is caught there, reported, and skipped; it never
  leaves the call.

  Batch indexing (app.py on its rebuild path, searchAPP.py with no cache file yet), over
  a listing of distinct items: the call returns normally, the index holds exactly the
  items that processed successfully, in listing order (so with one undecodable item
  among \<open>N\<close> good ones it has \<open>N\<close> entries), and one message per failed item is printed
  (app.py) or shown as a warning (searchAPP.py). When searchAPP.py starts from a cache,
  the cached entries stay as they are and exactly the new items that processed
  successfully are added after them. Whatever the items do, a call whose listing, load
  and save succeed returns normally.

  Search on an indexed engine whose query preprocesses: the call returns normally; the
  ranked list is computed from exactly the entries whose comparison returned a score,
  and one message per entry whose comparison raised is printed.
\<close>

theorem per_item_errors_contained:
  "(listdir w = Inr names \<and> writable w \<and> (force \<or> (\<not> is_indexed w \<and> index_file w = None))
    \<and> distinct (app_candidates L w names)
    \<longrightarrow> fst (app_build_index L force w) = Inr None
      \<and> image_features (snd (app_build_index L force w)) =
          concat (map (\<lambda>p. case preprocess_image L (imread w) p of
                              Inr img \<Rightarrow> [(p, img)] | Inl e \<Rightarrow> [])
                      (app_candidates L w names))
      \<and> length (image_features (snd (app_build_index L force w))) =
          length (filter (\<lambda>p. \<not> isl (preprocess_image L (imread w) p))
                    (app_candidates L w names))
      \<and> stdout (snd (app_build_index L force w)) =
          stdout w @ concat (map (\<lambda>p. case preprocess_image L (imread w) p of
                                       Inl e \<Rightarrow> [ErrorProcessing p e] | Inr img \<Rightarrow> [])
                               (app_candidates L w names)))
   \<and> (cache_file g = None \<and> list_images_in_folder g = Inr files \<and> files \<noteq> []
      \<and> gd_writable g \<and> distinct (map file_id files)
    \<longrightarrow> fst (gd_build_index L g) = Inr None
      \<and> gd_image_features (snd (gd_build_index L g)) =
          concat (map (\<lambda>f. case download_and_process L g f of
                              Inr img \<Rightarrow> [(file_id f, img)] | Inl e \<Rightarrow> [])
                      files)
      \<and> length (gd_image_features (snd (gd_build_index L g))) =
          length (filter (\<lambda>f. \<not> isl (download_and_process L g f)) files)
      \<and> st_log (snd (gd_build_index L g)) =
          st_log g @ concat (map (\<lambda>f. case download_and_process L g f of
                                       Inl e \<Rightarrow> [StWarning (file_name f) e] | Inr img \<Rightarrow> [])
                               files)
          @ [StSuccessIndexed (length files)])
   \<and> (gd_load_cache g = Inr g1 \<and> list_images_in_folder g = Inr files
      \<and> distinct (map file_id files)
      \<and> fst ` set (gd_image_features g1) \<subseteq> fst ` set (gd_image_metadata g1)
    \<longrightarrow> gd_image_features (snd (gd_build_index L g)) =
          gd_image_features g1
          @ concat (map (\<lambda>f. case download_and_process L g f of
                                Inr img \<Rightarrow> [(file_id f, img)] | Inl e \<Rightarrow> [])
                        (filter (\<lambda>f. \<not> dict_contains (gd_image_metadata g1) (file_id f))
                           files)))
   \<and> (listdir w = Inr names \<and> writable w
      \<and> (force \<or> is_indexed w \<or> index_file w = None \<or> index_file w = Some (Pickled d))
    \<longrightarrow> fst (app_build_index L force w) = Inr None)
   \<and> (list_images_in_folder g = Inr files \<and> gd_writable g
      \<and> (cache_file g = None \<or> cache_file g = Some (Pickled c))
    \<longrightarrow> fst (gd_build_index L g) = Inr None)
   \<and> (is_indexed w \<and> preprocess_image L (imread w) p = Inr q
    \<longrightarrow> app_search L p t n w =
          (Inr (py_slice_to (py_sort_reverse snd
                  (concat (map (\<lambda>(k, img). case compute_similarity L (U8 q) img of
                                   Inr s \<Rightarrow> if t \<le> s then [(k, s)] else [] | Inl e \<Rightarrow> [])
                            (image_features w)))) n),
           w\<lparr>stdout := stdout w @
                concat (map (\<lambda>(k, img). case compute_similarity L (U8 q) img of
                                Inr s \<Rightarrow> [] | Inl e \<Rightarrow> [ErrorComparing k e])
                         (image_features w))\<rparr>))
   \<and> (gd_is_indexed g \<and> query_array L qi = Inr q'
    \<longrightarrow> gd_search L qi t n g =
          (Inr (py_slice_to (py_sort_reverse snd
                  (concat (map (\<lambda>(k, img). case compute_similarity L q' img of
                                   Inr s \<Rightarrow> if t \<le> s then [(k, s)] else [] | Inl e \<Rightarrow> [])
                            (gd_image_features g)))) n),
           g\<lparr>st_log := st_log g @
                concat (map (\<lambda>(k, img). case compute_similarity L q' img of
                                Inr s \<Rightarrow> [] | Inl e \<Rightarrow> [ErrorComparing k e])
                         (gd_image_features g))\<rparr>))"
proof (intro conjI impI; (elim conjE)?)
  assume a: "listdir w = Inr names" "writable w"
    "force \<or> (\<not> is_indexed w \<and> index_file w = None)" "distinct (app_candidates L w names)"
  show "fst (app_build_index L force w) = Inr None"
    using a by (rule app_rebuild(1))
  show f: "image_features (snd (app_build_index L force w)) =
          concat (map (\<lambda>p. case preprocess_image L (imread w) p of
                              Inr img \<Rightarrow> [(p, img)] | Inl e \<Rightarrow> [])
                      (app_candidates L w names))"
    using a by (rule app_rebuild(2))
  show "length (image_features (snd (app_build_index L force w))) =
          length (filter (\<lambda>p. \<not> isl (preprocess_image L (imread w) p))
                    (app_candidates L w names))"
    unfolding f by (rule length_successes)
  show "stdout (snd (app_build_index L force w)) =
          stdout w @ concat (map (\<lambda>p. case preprocess_image L (imread w) p of
                                       Inl e \<Rightarrow> [ErrorProcessing p e] | Inr img \<Rightarrow> [])
                               (app_candidates L w names))"
    using a by (rule app_rebuild(3))
next
  assume a: "cache_file g = None" "list_images_in_folder g = Inr files" "files \<noteq> []"
    "gd_writable g" "distinct (map file_id files)"
  show "fst (gd_build_index L g) = Inr None"
    using a by (rule gd_build_from_scratch(1))
  show f: "gd_image_features (snd (gd_build_index L g)) =
          concat (map (\<lambda>f. case download_and_process L g f of
                              Inr img \<Rightarrow> [(file_id f, img)] | Inl e \<Rightarrow> [])
                      files)"
    using a by (rule gd_build_from_scratch(2))
  show "length (gd_image_features (snd (gd_build_index L g))) =
          length (filter (\<lambda>f. \<not> isl (download_and_process L g f)) files)"
    unfolding f by (rule length_successes)
  show "st_log (snd (gd_build_index L g)) =
          st_log g @ concat (map (\<lambda>f. case download_and_process L g f of
                                       Inl e \<Rightarrow> [StWarning (file_name f) e] | Inr img \<Rightarrow> [])
                               files)
          @ [StSuccessIndexed (length files)]"
    using a by (rule gd_build_from_scratch(3))
next
  assume "gd_load_cache g = Inr g1" "list_images_in_folder g = Inr files"
    "distinct (map file_id files)"
    "fst ` set (gd_image_features g1) \<subseteq> fst ` set (gd_image_metadata g1)"
  then show "gd_image_features (snd (gd_build_index L g)) =
          gd_image_features g1
          @ concat (map (\<lambda>f. case download_and_process L g f of
                                Inr img \<Rightarrow> [(file_id f, img)] | Inl e \<Rightarrow> [])
                        (filter (\<lambda>f. \<not> dict_contains (gd_image_metadata g1) (file_id f))
                           files))"
    by (rule gd_incremental_features)
next
  assume "listdir w = Inr names" "writable w"
    "force \<or> is_indexed w \<or> index_file w = None \<or> index_file w = Some (Pickled d)"
  then show "fst (app_build_index L force w) = Inr None"
    by (rule app_build_index_returns)
next
  assume "list_images_in_folder g = Inr files" "gd_writable g"
    "cache_file g = None \<or> cache_file g = Some (Pickled c)"
  then show "fst (gd_build_index L g) = Inr None"
    by (rule gd_build_index_returns)
next
  assume "is_indexed w" "preprocess_image L (imread w) p = Inr q"
  then show "app_search L p t n w =
          (Inr (py_slice_to (py_sort_reverse snd
                  (concat (map (\<lambda>(k, img). case compute_similarity L (U8 q) img of
                                   Inr s \<Rightarrow> if t \<le> s then [(k, s)] else [] | Inl e \<Rightarrow> [])
                            (image_features w)))) n),
           w\<lparr>stdout := stdout w @
                concat (map (\<lambda>(k, img). case compute_similarity L (U8 q) img of
                                Inr s \<Rightarrow> [] | Inl e \<Rightarrow> [ErrorComparing k e])
                         (image_features w))\<rparr>)"
    by (simp add: app_search_indexed search_scan_fst search_scan_snd)
next
  assume "gd_is_indexed g" "query_array L qi = Inr q'"
  then show "gd_search L qi t n g =
          (Inr (py_slice_to (py_sort_reverse snd
                  (concat (map (\<lambda>(k, img). case compute_similarity L q' img of
                                   Inr s \<Rightarrow> if t \<le> s then [(k, s)] else [] | Inl e \<Rightarrow> [])
                            (gd_image_features g)))) n),
           g\<lparr>st_log := st_log g @
                concat (map (\<lambda>(k, img). case compute_similarity L q' img of
                                Inr s \<Rightarrow> [] | Inl e \<Rightarrow> [ErrorComparing k e])
                         (gd_image_features g))\<rparr>)"
    by (simp add: gd_search_indexed search_scan_fst search_scan_snd)
qed

theorem per_item_errors_contained_witness:
  "listdir ex_app = Inr [''a.png'', ''notes.txt'', ''b.JPG'', ''bad.gif''] \<and> writable ex_app
   \<and> \<not> is_indexed ex_app \<and> index_file ex_app = None
   \<and> distinct (app_candidates ex_lib ex_app [''a.png'', ''notes.txt'', ''b.JPG'', ''bad.gif''])
   \<and> fst (app_build_index ex_lib False ex_app) = Inr None
   \<and> length (image_features (snd (app_build_index ex_lib False ex_app))) = 2
   \<and> stdout (snd (app_build_index ex_lib False ex_app))
       = [ErrorProcessing ''ref/bad.gif'' (ValueError ''Could not read image: ref/bad.gif'')]
   \<and> cache_file ex_gd = None \<and> list_images_in_folder ex_gd = Inr ex_files \<and> ex_files \<noteq> []
   \<and> gd_writable ex_gd \<and> distinct (map file_id ex_files)
   \<and> fst (gd_build_index ex_lib ex_gd) = Inr None
   \<and> length (gd_image_features (snd (gd_build_index ex_lib ex_gd))) = 3
   \<and> st_log (snd (gd_build_index ex_lib ex_gd))
       = [StWarning ''two.png'' (ValueError ''Could not decode image''), StSuccessIndexed 4]
   \<and> gd_image_features (snd (gd_build_index ex_lib
        (ex_gd\<lparr>cache_file :=
           Some (Pickled \<lparr>cached_features = Some [(''id1'', flat 10)],
                          cached_metadata = Some [(''id1'', (''one.png'', ''image/png''))]\<rparr>)\<rparr>)))
       = [(''id1'', flat 10), (''id3'', flat 10), (''id5'', flat 20)]
   \<and> is_indexed ex_app_indexed
   \<and> preprocess_image ex_lib (imread ex_app_indexed) ''shot.png'' = Inr (flat 10)
   \<and> app_search ex_lib ''shot.png'' (1 / 5) 3 ex_app_indexed
       = (Inr [(''ref/a.png'', 1), (''ref/c.png'', 1), (''ref/b.JPG'', 1 / 4)],
          ex_app_indexed\<lparr>stdout := [ErrorComparing ''ref/d.png''
                           (ValueError ''Input images must have the same dimensions.'')]\<rparr>)
   \<and> gd_is_indexed ex_gd_indexed
   \<and> query_array ex_lib (Ndarray (U8 (flat 10))) = Inr (U8 (flat 10))
   \<and> gd_search ex_lib (Ndarray (U8 (flat 10))) (1 / 5) 3 ex_gd_indexed
       = (Inr [(''id1'', 1), (''id3'', 1), (''id5'', 1 / 4)],
          ex_gd_indexed\<lparr>st_log := [ErrorComparing ''id0''
                          (ValueError ''Input images must have the same dimensions.'')]\<rparr>)"
proof -
  let ?names = "[''a.png'', ''notes.txt'', ''b.JPG'', ''bad.gif'']"
  have c: "app_candidates ex_lib ex_app ?names = [''ref/a.png'', ''ref/b.JPG'', ''ref/bad.gif'']"
    by (simp add: app_candidates_def is_image_name_ex ex_os_path_join ex_app_def)
  have a: "listdir ex_app = Inr ?names" "writable ex_app" "\<not> is_indexed ex_app"
    "index_file ex_app = None" "imread ex_app = ex_imread" "stdout ex_app = []"
    by (simp_all add: ex_app_def)
  have ad: "distinct (app_candidates ex_lib ex_app ?names)"
    by (simp add: c)
  have g: "cache_file ex_gd = None" "list_images_in_folder ex_gd = Inr ex_files"
    "ex_files \<noteq> []" "gd_writable ex_gd" "distinct (map file_id ex_files)" "st_log ex_gd = []"
    by (simp_all add: ex_gd_def ex_files_def)
  have dp: "map (download_and_process ex_lib ex_gd) ex_files =
      [Inr (flat 10), Inl (ValueError ''Could not decode image''), Inr (flat 10), Inr (flat 20)]"
    by (simp add: download_and_process_def ex_gd_def ex_files_def ex_download_def
        ex_preprocess_buffer)
  have ai: "is_indexed ex_app_indexed"
    "preprocess_image ex_lib (imread ex_app_indexed) ''shot.png'' = Inr (flat 10)"
    "stdout ex_app_indexed = []"
    "image_features ex_app_indexed =
       [(''ref/a.png'', flat 10), (''ref/b.JPG'', flat 20), (''ref/c.png'', flat 10),
        (''ref/d.png'', [[7]])]"
    by (simp_all add: ex_app_indexed_def ex_app_def ex_app_features_def ex_preprocess_image)
  have gi: "gd_is_indexed ex_gd_indexed" "query_array ex_lib (Ndarray (U8 (flat 10))) = Inr (U8 (flat 10))"
    "st_log ex_gd_indexed = []"
    "gd_image_features ex_gd_indexed =
       [(''id1'', flat 10), (''id0'', [[7]]), (''id3'', flat 10), (''id5'', flat 20)]"
    by (simp_all add: ex_gd_indexed_def ex_gd_def query_array_def)
  note t = per_item_errors_contained[where L = ex_lib]
  from a ad t[where w = ex_app and names = ?names and force = False]
  have 1: "fst (app_build_index ex_lib False ex_app) = Inr None"
    and 2: "length (image_features (snd (app_build_index ex_lib False ex_app))) =
          length (filter (\<lambda>p. \<not> isl (preprocess_image ex_lib (imread ex_app) p))
                    (app_candidates ex_lib ex_app ?names))"
    and 3: "stdout (snd (app_build_index ex_lib False ex_app)) =
          stdout ex_app @ concat (map (\<lambda>p. case preprocess_image ex_lib (imread ex_app) p of
                                       Inl e \<Rightarrow> [ErrorProcessing p e] | Inr img \<Rightarrow> [])
                               (app_candidates ex_lib ex_app ?names))"
    by blast+
  from 2 have 2: "length (image_features (snd (app_build_index ex_lib False ex_app))) = 2"
    by (simp add: c a ex_preprocess_image)
  from 3 have 3: "stdout (snd (app_build_index ex_lib False ex_app))
       = [ErrorProcessing ''ref/bad.gif'' (ValueError ''Could not read image: ref/bad.gif'')]"
    by (simp add: c a ex_preprocess_image)
  from g t[where g = ex_gd and files = ex_files]
  have 4: "fst (gd_build_index ex_lib ex_gd) = Inr None"
    and 5: "length (gd_image_features (snd (gd_build_index ex_lib ex_gd))) =
          length (filter (\<lambda>f. \<not> isl (download_and_process ex_lib ex_gd f)) ex_files)"
    and 6: "st_log (snd (gd_build_index ex_lib ex_gd)) =
          st_log ex_gd @ concat (map (\<lambda>f. case download_and_process ex_lib ex_gd f of
                                       Inl e \<Rightarrow> [StWarning (file_name f) e] | Inr img \<Rightarrow> [])
                               ex_files)
          @ [StSuccessIndexed (length ex_files)]"
    by blast+
  from 5 dp have 5: "length (gd_image_features (snd (gd_build_index ex_lib ex_gd))) = 3"
    by (simp add: ex_files_def)
  from 6 dp have 6: "st_log (snd (gd_build_index ex_lib ex_gd))
       = [StWarning ''two.png'' (ValueError ''Could not decode image''), StSuccessIndexed 4]"
    by (simp add: g ex_files_def)
  let ?G = "ex_gd\<lparr>cache_file :=
              Some (Pickled \<lparr>cached_features = Some [(''id1'', flat 10)],
                             cached_metadata = Some [(''id1'', (''one.png'', ''image/png''))]\<rparr>)\<rparr>"
  let ?G1 = "?G\<lparr>gd_image_features := [(''id1'', flat 10)],
                 gd_image_metadata := [(''id1'', (''one.png'', ''image/png''))]\<rparr>"
  have c: "gd_load_cache ?G = Inr ?G1" "list_images_in_folder ?G = Inr ex_files"
    "fst ` set (gd_image_features ?G1) \<subseteq> fst ` set (gd_image_metadata ?G1)"
    by (simp_all add: gd_load_cache_def ex_gd_def)
  have dpc: "map (download_and_process ex_lib ?G) ex_files =
      [Inr (flat 10), Inl (ValueError ''Could not decode image''), Inr (flat 10), Inr (flat 20)]"
    by (simp add: download_and_process_def ex_gd_def ex_files_def ex_download_def
        ex_preprocess_buffer)
  note inc = t[where g = ?G and ?g1.0 = ?G1 and files = ex_files,
      THEN conjunct2, THEN conjunct2, THEN conjunct1, rule_format]
  have "gd_image_features (snd (gd_build_index ex_lib ?G)) =
          gd_image_features ?G1
          @ concat (map (\<lambda>f. case download_and_process ex_lib ?G f of
                                Inr img \<Rightarrow> [(file_id f, img)] | Inl e \<Rightarrow> [])
                        (filter (\<lambda>f. \<not> dict_contains (gd_image_metadata ?G1) (file_id f))
                           ex_files))"
    by (rule inc) (intro conjI c g(5))
  with dpc have 9: "gd_image_features (snd (gd_build_index ex_lib ?G))
       = [(''id1'', flat 10), (''id3'', flat 10), (''id5'', flat 20)]"
    by (simp add: ex_files_def dict_contains_def)
  note sa = t[where w = ex_app_indexed and p = "''shot.png''" and q = "flat 10"
      and t = "1 / 5" and n = 3,
      THEN conjunct2, THEN conjunct2, THEN conjunct2, THEN conjunct2, THEN conjunct2,
      THEN conjunct1, rule_format]
  have "app_search ex_lib ''shot.png'' (1 / 5) 3 ex_app_indexed =
          (Inr (py_slice_to (py_sort_reverse snd
                  (concat (map (\<lambda>(k, img). case compute_similarity ex_lib (U8 (flat 10)) img of
                                   Inr s \<Rightarrow> if 1 / 5 \<le> s then [(k, s)] else [] | Inl e \<Rightarrow> [])
                            (image_features ex_app_indexed)))) 3),
           ex_app_indexed\<lparr>stdout := stdout ex_app_indexed @
                concat (map (\<lambda>(k, img). case compute_similarity ex_lib (U8 (flat 10)) img of
                                Inr s \<Rightarrow> [] | Inl e \<Rightarrow> [ErrorComparing k e])
                         (image_features ex_app_indexed))\<rparr>)"
    by (rule sa) (intro conjI ai(1,2))
  then have 7: "app_search ex_lib ''shot.png'' (1 / 5) 3 ex_app_indexed
       = (Inr [(''ref/a.png'', 1), (''ref/c.png'', 1), (''ref/b.JPG'', 1 / 4)],
          ex_app_indexed\<lparr>stdout := [ErrorComparing ''ref/d.png''
                           (ValueError ''Input images must have the same dimensions.'')]\<rparr>)"
    by (simp add: ai ex_similarity py_sort_reverse_def py_slice_to_def)
  note sg = t[where g = ex_gd_indexed and qi = "Ndarray (U8 (flat 10))" and q' = "U8 (flat 10)"
      and t = "1 / 5" and n = 3,
      THEN conjunct2, THEN conjunct2, THEN conjunct2, THEN conjunct2, THEN conjunct2,
      THEN conjunct2, rule_format]
  have "gd_search ex_lib (Ndarray (U8 (flat 10))) (1 / 5) 3 ex_gd_indexed =
          (Inr (py_slice_to (py_sort_reverse snd
                  (concat (map (\<lambda>(k, img). case compute_similarity ex_lib (U8 (flat 10)) img of
                                   Inr s \<Rightarrow> if 1 / 5 \<le> s then [(k, s)] else [] | Inl e \<Rightarrow> [])
                            (gd_image_features ex_gd_indexed)))) 3),
           ex_gd_indexed\<lparr>st_log := st_log ex_gd_indexed @
                concat (map (\<lambda>(k, img). case compute_similarity ex_lib (U8 (flat 10)) img of
                                Inr s \<Rightarrow> [] | Inl e \<Rightarrow> [ErrorComparing k e])
                         (gd_image_features ex_gd_indexed))\<rparr>)"
    by (rule sg) (intro conjI gi(1,2))
  then have 8: "gd_search ex_lib (Ndarray (U8 (flat 10))) (1 / 5) 3 ex_gd_indexed
       = (Inr [(''id1'', 1), (''id3'', 1), (''id5'', 1 / 4)],
          ex_gd_indexed\<lparr>st_log := [ErrorComparing ''id0''
                          (ValueError ''Input images must have the same dimensions.'')]\<rparr>)"
    by (simp add: gi ex_similarity py_sort_reverse_def py_slice_to_def)
  from a(1-4) ad g(1-5) ai(1,2) gi(1,2) 1 2 3 4 5 6 7 8 9 show ?thesis by blast
qed

end
